theory Spec2Isabelle
  imports Complex_Main "HOL-Library.Sublist"
begin

section \<open>Strings\<close>

text \<open>
  The worker manipulates JavaScript strings. They are modelled as \<^typ>\<open>string\<close>:
  a list of code units, restricted to the range 0..255. Only three string
  operations of the source matter: \<^verbatim>\<open>String.prototype.includes\<close>,
  \<^verbatim>\<open>String.prototype.trim\<close> and \<^verbatim>\<open>Array.prototype.join\<close>.
\<close>

fun str_includes :: "string \<Rightarrow> string \<Rightarrow> bool" where
  "str_includes [] sub = (sub = [])"
| "str_includes (c # cs) sub = (prefix sub (c # cs) \<or> str_includes cs sub)"

definition js_whitespace :: "char \<Rightarrow> bool" where
  \<comment> \<open>WhiteSpace and LineTerminator code units below 256: TAB, LF, VT, FF, CR, SP, NBSP.\<close>
  "js_whitespace c = (of_char c \<in> {9, 10, 11, 12, 13, 32, 160 :: nat})"

definition trim :: "string \<Rightarrow> string" where
  "trim s = rev (dropWhile js_whitespace (rev (dropWhile js_whitespace s)))"

fun join :: "string \<Rightarrow> string list \<Rightarrow> string" where
  "join sep [] = []"
| "join sep [x] = x"
| "join sep (x # y # ys) = x @ sep @ join sep (y # ys)"

definition blank_line :: string where
  \<comment> \<open>The separator \<^verbatim>\<open>'\n\n'\<close> of \<^verbatim>\<open>contentParts.join\<close>.\<close>
  "blank_line = [CHR 0x0A, CHR 0x0A]"

section \<open>The DOM seen by the in-page scripts\<close>

text \<open>
  A document is a tree of text nodes and elements; an element has a tag name
  (lower case), its attributes and its child nodes. A node is identified by
  its path: the list of child indices leading to it from the document element.
\<close>

datatype node = Text string | Element string "(string \<times> string) list" "node list"

type_synonym path = "nat list"

fun is_element :: "node \<Rightarrow> bool" where
  "is_element (Text s) = False"
| "is_element (Element t as cs) = True"

fun tagName :: "node \<Rightarrow> string option" where
  "tagName (Text s) = None"
| "tagName (Element t as cs) = Some t"

fun getAttribute :: "node \<Rightarrow> string \<Rightarrow> string option" where
  "getAttribute (Text s) name = None"
| "getAttribute (Element t as cs) name = map_of as name"

fun childNodes :: "node \<Rightarrow> node list" where
  "childNodes (Text s) = []"
| "childNodes (Element t as cs) = cs"

fun textContent :: "node \<Rightarrow> string" where
  "textContent (Text s) = s"
| "textContent (Element t as cs) = concat (map textContent cs)"

fun node_at :: "node \<Rightarrow> path \<Rightarrow> node option" where
  "node_at n [] = Some n"
| "node_at n (i # p) =
     (if i < length (childNodes n) then node_at (childNodes n ! i) p else None)"

text \<open>
  The proper descendant elements of a node in document order (pre-order), each
  with its path relative to the node: the candidates of
  \<^verbatim>\<open>element.querySelectorAll\<close>.
\<close>

fun descendants :: "node \<Rightarrow> (path \<times> node) list"
  and descendants_from :: "nat \<Rightarrow> node list \<Rightarrow> (path \<times> node) list" where
  "descendants (Text s) = []"
| "descendants (Element t as cs) = descendants_from 0 cs"
| "descendants_from i [] = []"
| "descendants_from i (c # cs) =
     (if is_element c then [([i], c)] else []) @
     map (\<lambda>(q, m). (i # q, m)) (descendants c) @
     descendants_from (Suc i) cs"

subsection \<open>Selectors\<close>

datatype simple_selector =
    Tag string                    \<comment> \<open>\<^verbatim>\<open>img\<close>\<close>
  | Class string                  \<comment> \<open>\<^verbatim>\<open>.layout\<close>\<close>
  | HasAttr string                \<comment> \<open>\<^verbatim>\<open>[data-block-id]\<close>\<close>
  | AttrEq string string          \<comment> \<open>\<^verbatim>\<open>[role="button"]\<close>\<close>
  | AttrContains string string    \<comment> \<open>\<^verbatim>\<open>[class*="image"]\<close>\<close>

definition ascii_whitespace :: "char \<Rightarrow> bool" where
  "ascii_whitespace c = (of_char c \<in> {9, 10, 12, 13, 32 :: nat})"

fun class_tokens :: "string \<Rightarrow> string \<Rightarrow> string list" where
  "class_tokens cur [] = (if cur = [] then [] else [cur])"
| "class_tokens cur (c # cs) =
     (if ascii_whitespace c then (if cur = [] then [] else [cur]) @ class_tokens [] cs
      else class_tokens (cur @ [c]) cs)"

fun matches_simple :: "simple_selector \<Rightarrow> node \<Rightarrow> bool" where
  "matches_simple (Tag t) el = (tagName el = Some t)"
| "matches_simple (Class c) el =
     (case getAttribute el ''class'' of None \<Rightarrow> False | Some v \<Rightarrow> c \<in> set (class_tokens [] v))"
| "matches_simple (HasAttr a) el = (getAttribute el a \<noteq> None)"
| "matches_simple (AttrEq a v) el = (getAttribute el a = Some v)"
| "matches_simple (AttrContains a v) el =
     (case getAttribute el a of None \<Rightarrow> False | Some w \<Rightarrow> v \<noteq> [] \<and> str_includes w v)"

text \<open>
  A compound selector is a conjunction of simple selectors; a selector list
  (comma separated) matches when one of its compounds does. Only elements match.
\<close>

definition matches_compound :: "simple_selector list \<Rightarrow> node \<Rightarrow> bool" where
  "matches_compound c el = (is_element el \<and> list_all (\<lambda>s. matches_simple s el) c)"

definition matches :: "simple_selector list list \<Rightarrow> node \<Rightarrow> bool" where
  "matches sel el = list_ex (\<lambda>c. matches_compound c el) sel"

subsection \<open>Queries\<close>


definition element_querySelector :: "node \<Rightarrow> simple_selector list list \<Rightarrow> node option" where
  "element_querySelector el sel = find (matches sel) (map snd (descendants el))"

definition querySelectorAll ::
  "node \<Rightarrow> path \<Rightarrow> simple_selector list list \<Rightarrow> (path \<times> node) list" where
  \<comment> \<open>\<^verbatim>\<open>el.querySelectorAll(sel)\<close> for the element at path \<open>p\<close> of the document,
      each match with its identity (its path in the document).\<close>
  "querySelectorAll doc p sel =
     (case node_at doc p of
        None \<Rightarrow> []
      | Some el \<Rightarrow> map (\<lambda>(q, m). (p @ q, m)) (filter (\<lambda>(q, m). matches sel m) (descendants el)))"

definition document_elements :: "node \<Rightarrow> (path \<times> node) list" where
  "document_elements doc = (if is_element doc then [([], doc)] else []) @ descendants doc"

definition document_querySelector ::
  "node \<Rightarrow> simple_selector list list \<Rightarrow> (path \<times> node) option" where
  "document_querySelector doc sel = find (\<lambda>(p, m). matches sel m) (document_elements doc)"

definition parentElement :: "path \<Rightarrow> path option" where
  "parentElement p = (if p = [] then None else Some (butlast p))"

function closest :: "node \<Rightarrow> simple_selector list list \<Rightarrow> path \<Rightarrow> path option" where
  "closest doc sel p =
     (if (case node_at doc p of None \<Rightarrow> False | Some m \<Rightarrow> matches sel m) then Some p
      else if p = [] then None
      else closest doc sel (butlast p))"
  by pat_completeness auto
termination
  by (relation "measure (\<lambda>(doc, sel, p). length p)") auto

text \<open>
  \<^verbatim>\<open>clone.querySelectorAll(sel).forEach(el => el.remove())\<close> on a detached clone:
  every proper descendant that matches is removed with its subtree; the clone's
  root is never a candidate.
\<close>

fun remove_matching :: "simple_selector list list \<Rightarrow> node \<Rightarrow> node" where
  "remove_matching sel (Text s) = Text s"
| "remove_matching sel (Element t as cs) =
     Element t as (map (remove_matching sel) (filter (\<lambda>c. \<not> matches sel c) cs))"

section \<open>The extraction scripts\<close>

text \<open>
  The function passed to the last \<^verbatim>\<open>page.evaluate\<close> of each variant, run on
  the document of the page. The three source files differ in this script:
  \<^verbatim>\<open>src/index.ts\<close> keeps top-level blocks and skips media blocks,
  \<^verbatim>\<open>unnamed/part_000\<close> takes the direct text of every block and
  drops repeated texts, \<^verbatim>\<open>unnamed/part_001\<close> takes the full text of every block.
  Each entry of \<^verbatim>\<open>contentParts\<close> is recorded with the path of the block that
  pushed it; the script's array is the list of second components.
\<close>

record NotionContent =
  title :: string
  content :: string

definition sel_content_root :: "simple_selector list list" where
  "sel_content_root = [[AttrEq ''data-content-editable-root'' ''true'']]"

definition sel_block :: "simple_selector list list" where
  "sel_block = [[HasAttr ''data-block-id'']]"

definition sel_media :: "simple_selector list list" where
  \<comment> \<open>\<^verbatim>\<open>'img, svg, video, audio, iframe'\<close>\<close>
  "sel_media = [[Tag ''img''], [Tag ''svg''], [Tag ''video''], [Tag ''audio''], [Tag ''iframe'']]"

definition ancestors :: "node \<Rightarrow> path \<Rightarrow> node list" where
  "ancestors doc p =
     concat (map (\<lambda>k. case node_at doc (take k p) of None \<Rightarrow> [] | Some m \<Rightarrow> [m]) [0..<length p])"

definition matches_title :: "node \<Rightarrow> path \<times> node \<Rightarrow> bool" where
  \<comment> \<open>\<^verbatim>\<open>'.notion-page-content .notion-header__title, [data-content-editable-leaf="true"]'\<close>\<close>
  "matches_title doc = (\<lambda>(p, m).
     (matches [[Class ''notion-header__title'']] m \<and>
      list_ex (matches [[Class ''notion-page-content'']]) (ancestors doc p)) \<or>
     matches [[AttrEq ''data-content-editable-leaf'' ''true'']] m)"

definition page_title :: "node \<Rightarrow> string" where
  \<comment> \<open>\<^verbatim>\<open>titleElement?.textContent?.trim() || 'Untitled'\<close>\<close>
  "page_title doc =
     (case find (matches_title doc) (document_elements doc) of
        None \<Rightarrow> ''Untitled''
      | Some (p, titleElement) \<Rightarrow>
          (let t = trim (textContent titleElement) in if t = [] then ''Untitled'' else t))"

subsection \<open>src/index.ts\<close>

definition topLevelBlocks :: "node \<Rightarrow> (path \<times> node) list \<Rightarrow> (path \<times> node) list" where
  "topLevelBlocks doc allBlocks =
     filter (\<lambda>(block, el).
        case (case parentElement block of None \<Rightarrow> None | Some q \<Rightarrow> closest doc sel_block q) of
          None \<Rightarrow> True
        | Some parent \<Rightarrow> parent \<notin> set (map fst allBlocks)) allBlocks"

definition is_media_block :: "node \<Rightarrow> bool" where
  "is_media_block blockElement =
     (element_querySelector blockElement [[Tag ''img'']] \<noteq> None \<or>
      element_querySelector blockElement [[AttrContains ''class'' ''image'']] \<noteq> None \<or>
      element_querySelector blockElement [[AttrContains ''class'' ''embed'']] \<noteq> None \<or>
      element_querySelector blockElement [[AttrContains ''class'' ''video'']] \<noteq> None \<or>
      element_querySelector blockElement [[AttrContains ''class'' ''file'']] \<noteq> None \<or>
      element_querySelector blockElement [[Tag ''svg'']] \<noteq> None)"

definition block_entry_index :: "path \<times> node \<Rightarrow> (path \<times> string) list" where
  \<comment> \<open>The callback of \<^verbatim>\<open>topLevelBlocks.forEach\<close>: what it pushes, with the block it comes from.\<close>
  "block_entry_index = (\<lambda>(block, blockElement).
     if is_media_block blockElement then []
     else (let clone = remove_matching sel_media blockElement;
               text = trim (textContent clone)
           in if text \<noteq> [] then [(block, text)] else []))"

definition contentEntries_index :: "node \<Rightarrow> path \<Rightarrow> (path \<times> string) list" where
  "contentEntries_index doc contentRoot =
     (let allBlocks = querySelectorAll doc contentRoot sel_block
      in concat (map block_entry_index (topLevelBlocks doc allBlocks)))"

definition extract_index :: "node \<Rightarrow> NotionContent" where
  "extract_index doc =
     (case document_querySelector doc sel_content_root of
        None \<Rightarrow> \<lparr>title = page_title doc, content = []\<rparr>
      | Some (contentRoot, el) \<Rightarrow>
          \<lparr>title = page_title doc,
           content = join blank_line (map snd (contentEntries_index doc contentRoot))\<rparr>)"

subsection \<open>unnamed/part_000\<close>

definition getDirectText :: "node \<Rightarrow> string" where
  "getDirectText element =
     (let clone = remove_matching sel_block element;
          clone = remove_matching sel_media clone
      in trim (textContent clone))"

definition block_step_part_000 ::
  "string set \<times> (path \<times> string) list \<Rightarrow> path \<times> node \<Rightarrow> string set \<times> (path \<times> string) list" where
  \<comment> \<open>The callback of \<^verbatim>\<open>allBlocks.forEach\<close> on the pair \<^verbatim>\<open>(seenTexts, contentParts)\<close>.\<close>
  "block_step_part_000 = (\<lambda>(seenTexts, contentParts) (block, blockElement).
     (let text = getDirectText blockElement
      in if text \<noteq> [] \<and> text \<notin> seenTexts
         then (insert text seenTexts, contentParts @ [(block, text)])
         else (seenTexts, contentParts)))"

definition contentEntries_part_000 :: "node \<Rightarrow> path \<Rightarrow> (path \<times> string) list" where
  "contentEntries_part_000 doc contentRoot =
     (let allBlocks = querySelectorAll doc contentRoot sel_block
      in snd (foldl block_step_part_000 ({}, []) allBlocks))"

definition extract_part_000 :: "node \<Rightarrow> NotionContent" where
  "extract_part_000 doc =
     (case document_querySelector doc sel_content_root of
        None \<Rightarrow> \<lparr>title = page_title doc, content = []\<rparr>
      | Some (contentRoot, el) \<Rightarrow>
          \<lparr>title = page_title doc,
           content = join blank_line (map snd (contentEntries_part_000 doc contentRoot))\<rparr>)"

subsection \<open>unnamed/part_001\<close>

definition block_entry_part_001 :: "path \<times> node \<Rightarrow> (path \<times> string) list" where
  "block_entry_part_001 = (\<lambda>(block, el).
     (let text = trim (textContent el) in if text \<noteq> [] then [(block, text)] else []))"

definition contentEntries_part_001 :: "node \<Rightarrow> path \<Rightarrow> (path \<times> string) list" where
  "contentEntries_part_001 doc contentRoot =
     (let blocks = querySelectorAll doc contentRoot sel_block
      in concat (map block_entry_part_001 blocks))"

definition extract_part_001 :: "node \<Rightarrow> NotionContent" where
  "extract_part_001 doc =
     (case document_querySelector doc sel_content_root of
        None \<Rightarrow> \<lparr>title = page_title doc, content = []\<rparr>
      | Some (contentRoot, el) \<Rightarrow>
          \<lparr>title = page_title doc,
           content = join blank_line (map snd (contentEntries_part_001 doc contentRoot))\<rparr>)"

section \<open>Requests and responses\<close>

text \<open>
  The request as the handler reads it: \<^verbatim>\<open>request.method\<close>, the path name of
  \<^verbatim>\<open>new URL(request.url)\<close> and its query parameters in order.
  A response body is either \<^verbatim>\<open>null\<close> or the argument of \<^verbatim>\<open>JSON.stringify\<close>
  (the fields of the object in order, and the indentation argument if given).
\<close>

record request =
  http_method :: string
  pathname :: string
  searchParams :: "(string \<times> string) list"

definition searchParams_get :: "request \<Rightarrow> string \<Rightarrow> string option" where
  "searchParams_get req name = map_of (searchParams req) name"

datatype payload = Null | JSON_stringify "(string \<times> string) list" "nat option"

record response =
  status :: nat
  headers :: "(string \<times> string) list"
  body :: payload

definition CORS_HEADERS :: "(string \<times> string) list" where
  "CORS_HEADERS =
     [(''Access-Control-Allow-Origin'', ''*''),
      (''Access-Control-Allow-Methods'', ''GET, POST, OPTIONS''),
      (''Access-Control-Allow-Headers'', ''Content-Type, Authorization'')]"

definition json_headers :: "(string \<times> string) list" where
  "json_headers = (''Content-Type'', ''application/json'') # CORS_HEADERS"

definition not_found_response :: response where
  "not_found_response =
     \<lparr>status = 404, headers = json_headers,
      body = JSON_stringify [(''error'', ''Use /scrape endpoint with ?url=<notion-url>'')] None\<rparr>"

definition options_response :: response where
  \<comment> \<open>\<^verbatim>\<open>new Response(null, { headers: CORS_HEADERS })\<close>: the status defaults to 200.\<close>
  "options_response = \<lparr>status = 200, headers = CORS_HEADERS, body = Null\<rparr>"

definition missing_url_response :: response where
  \<open>missing_url_response =
     \<lparr>status = 400, headers = json_headers,
      body = JSON_stringify [(''error'', ''Missing "url" query parameter'')] None\<rparr>\<close>

definition invalid_url_response :: response where
  "invalid_url_response =
     \<lparr>status = 400, headers = json_headers,
      body = JSON_stringify
        [(''error'', ''Invalid Notion URL. Must be from notion.so or notion.site'')] None\<rparr>"

definition success_response :: "NotionContent \<Rightarrow> response" where
  "success_response extractedData =
     \<lparr>status = 200, headers = json_headers,
      body = JSON_stringify
        [(''title'', title extractedData), (''content'', content extractedData)] (Some 2)\<rparr>"

text \<open>A thrown JavaScript value: an \<^verbatim>\<open>Error\<close> with its message, or anything else.\<close>

datatype thrown = Error string | NonError string

definition errorMessage :: "thrown \<Rightarrow> string" where
  \<comment> \<open>\<^verbatim>\<open>error instanceof Error ? error.message : 'Unknown error occurred'\<close>\<close>
  "errorMessage error = (case error of Error message \<Rightarrow> message | NonError v \<Rightarrow> ''Unknown error occurred'')"

definition failure_response :: "thrown \<Rightarrow> response" where
  "failure_response error =
     \<lparr>status = 500, headers = json_headers,
      body = JSON_stringify
        [(''error'', ''Failed to scrape Notion page''), (''details'', errorMessage error)] None\<rparr>"

section \<open>The browser\<close>

text \<open>
  The browser and the page are outside the program. They are a parameter: a
  state of type \<open>'w\<close> and, for every call of the Playwright API the worker
  makes, a function that gives the outcome of the call (\<open>None\<close>: the promise
  resolves; \<open>Some e\<close>: it rejects with \<open>e\<close>) and the next state. The scripts run
  in the page observe it through \<open>document\<close> (the DOM) and, for the toggles,
  through the nodes matched by the toggle selector, their geometry and
  attributes; dispatching a click runs the page's own handlers, which may change
  anything. Every awaited call is assumed to settle.
\<close>

type_synonym handle = nat

record rect =
  rect_width :: real
  rect_height :: real
  rect_bottom :: real
  rect_right :: real

datatype wait_until = domcontentloaded | networkidle

datatype script = ClickAllCollapsed | GetCollapsedCount | ClickFirstCollapsed | ExtractContent

record 'w playwright =
  launch :: "'w \<Rightarrow> thrown option \<times> 'w"
  newPage :: "'w \<Rightarrow> thrown option \<times> 'w"
  goto :: "string \<Rightarrow> wait_until \<Rightarrow> nat \<Rightarrow> 'w \<Rightarrow> thrown option \<times> 'w"
  waitForSelector :: "simple_selector list list \<Rightarrow> nat \<Rightarrow> 'w \<Rightarrow> thrown option \<times> 'w"
  waitForTimeout :: "nat \<Rightarrow> 'w \<Rightarrow> thrown option \<times> 'w"
  evaluate :: "script \<Rightarrow> 'w \<Rightarrow> thrown option \<times> 'w"
  close :: "'w \<Rightarrow> thrown option \<times> 'w"
  document :: "'w \<Rightarrow> node"
  toggleNodes :: "'w \<Rightarrow> handle list"
  isConnected :: "handle \<Rightarrow> 'w \<Rightarrow> bool"
  getBoundingClientRect :: "handle \<Rightarrow> 'w \<Rightarrow> rect"
  ariaDisabled :: "handle \<Rightarrow> 'w \<Rightarrow> string option"
  scrollIntoView :: "handle \<Rightarrow> 'w \<Rightarrow> 'w"
  dispatchClick :: "handle \<Rightarrow> 'w \<Rightarrow> 'w"

datatype event =
    Launch | NewPage | Goto string wait_until nat | WaitForSelector nat
  | WaitForTimeout nat | Evaluate script | ConsoleLog thrown | Close

text \<open>
  The state of one run of the handler: the browser's state, the calls made so
  far, and whether the variable \<^verbatim>\<open>browser\<close> has been assigned.
\<close>

record 'w run =
  world :: 'w
  trace :: "event list"
  browser :: bool

type_synonym ('w, 'a) action = "'w run \<Rightarrow> (thrown + 'a) \<times> 'w run"

definition start :: "'w \<Rightarrow> 'w run" where
  "start w = \<lparr>world = w, trace = [], browser = False\<rparr>"

definition return :: "'a \<Rightarrow> ('w, 'a) action" where
  "return x s = (Inr x, s)"

definition await :: "('w, 'a) action \<Rightarrow> ('a \<Rightarrow> ('w, 'b) action) \<Rightarrow> ('w, 'b) action" where
  \<comment> \<open>\<^verbatim>\<open>const x = await m; k(x)\<close>: a rejection skips the rest.\<close>
  "await m k s = (case m s of (Inl e, s') \<Rightarrow> (Inl e, s') | (Inr x, s') \<Rightarrow> k x s')"

definition try_catch :: "('w, 'a) action \<Rightarrow> (thrown \<Rightarrow> ('w, 'a) action) \<Rightarrow> ('w, 'a) action" where
  "try_catch m h s = (case m s of (Inl e, s') \<Rightarrow> h e s' | (Inr x, s') \<Rightarrow> (Inr x, s'))"

definition call :: "event \<Rightarrow> ('w \<Rightarrow> thrown option \<times> 'w) \<Rightarrow> ('w, unit) action" where
  "call ev f s =
     (case f (world s) of
        (None, w') \<Rightarrow> (Inr (), s\<lparr>world := w', trace := trace s @ [ev]\<rparr>)
      | (Some e, w') \<Rightarrow> (Inl e, s\<lparr>world := w', trace := trace s @ [ev]\<rparr>))"

definition console_log :: "thrown \<Rightarrow> ('w, unit) action" where
  "console_log error s = (Inr (), s\<lparr>trace := trace s @ [ConsoleLog error]\<rparr>)"

definition launch_browser :: "'w playwright \<Rightarrow> ('w, unit) action" where
  \<comment> \<open>\<^verbatim>\<open>browser = await launch(env.MYBROWSER)\<close>\<close>
  "launch_browser api s =
     (case launch api (world s) of
        (None, w') \<Rightarrow> (Inr (), s\<lparr>world := w', trace := trace s @ [Launch], browser := True\<rparr>)
      | (Some e, w') \<Rightarrow> (Inl e, s\<lparr>world := w', trace := trace s @ [Launch]\<rparr>))"

definition evaluate_script ::
  "'w playwright \<Rightarrow> script \<Rightarrow> ('w \<Rightarrow> 'a \<times> 'w) \<Rightarrow> ('w, 'a) action" where
  \<comment> \<open>\<^verbatim>\<open>await page.evaluate(fn)\<close>: the call rejects, or \<open>fn\<close> runs in the page.\<close>
  "evaluate_script api name fn s =
     (case evaluate api name (world s) of
        (Some e, w') \<Rightarrow> (Inl e, s\<lparr>world := w', trace := trace s @ [Evaluate name]\<rparr>)
      | (None, w') \<Rightarrow>
          (case fn w' of (x, w'') \<Rightarrow>
             (Inr x, s\<lparr>world := w'', trace := trace s @ [Evaluate name]\<rparr>)))"

section \<open>Expanding the toggles\<close>

text \<open>
  The script of \<^verbatim>\<open>clickAllCollapsed\<close> (\<^verbatim>\<open>src/index.ts\<close> and \<^verbatim>\<open>unnamed/part_000\<close>):
  the \<^verbatim>\<open>for\<close> loop over the nodes matched by the toggle selector.
\<close>

fun clickAllCollapsed_nodes :: "'w playwright \<Rightarrow> handle list \<Rightarrow> int \<Rightarrow> 'w \<Rightarrow> int \<times> 'w" where
  "clickAllCollapsed_nodes api [] clickedCount w = (clickedCount, w)"
| "clickAllCollapsed_nodes api (toggle # nodes) clickedCount w =
     (if \<not> isConnected api toggle w then clickAllCollapsed_nodes api nodes clickedCount w
      else
        (let rect = getBoundingClientRect api toggle w;
             visible = (rect_width rect > 1 \<and> rect_height rect > 1 \<and>
                        rect_bottom rect > 0 \<and> rect_right rect > 0)
         in if \<not> visible then clickAllCollapsed_nodes api nodes clickedCount w
            else
              (let disabled = (ariaDisabled api toggle w = Some ''true'')
               in if disabled then clickAllCollapsed_nodes api nodes clickedCount w
                  else clickAllCollapsed_nodes api nodes (clickedCount + 1)
                         (dispatchClick api toggle w))))"

definition clickAllCollapsed :: "'w playwright \<Rightarrow> ('w, int) action" where
  "clickAllCollapsed api =
     evaluate_script api ClickAllCollapsed
       (\<lambda>w. clickAllCollapsed_nodes api (toggleNodes api w) 0 w)"

text \<open>The two scripts of \<^verbatim>\<open>unnamed/part_001\<close>.\<close>

definition getCollapsedCount :: "'w playwright \<Rightarrow> ('w, nat) action" where
  "getCollapsedCount api =
     evaluate_script api GetCollapsedCount (\<lambda>w. (length (toggleNodes api w), w))"

fun clickFirstCollapsed_nodes :: "'w playwright \<Rightarrow> handle list \<Rightarrow> 'w \<Rightarrow> 'w" where
  "clickFirstCollapsed_nodes api [] w = w"
| "clickFirstCollapsed_nodes api (toggle # nodes) w =
     (if \<not> isConnected api toggle w then clickFirstCollapsed_nodes api nodes w
      else
        (let rect = getBoundingClientRect api toggle w;
             visible = (rect_width rect > 1 \<and> rect_height rect > 1 \<and>
                        rect_bottom rect > 0 \<and> rect_right rect > 0)
         in if \<not> visible then clickFirstCollapsed_nodes api nodes w
            else
              (let disabled = (ariaDisabled api toggle w = Some ''true'')
               in if disabled then clickFirstCollapsed_nodes api nodes w
                  else clickFirstCollapsed_nodes api nodes
                         (dispatchClick api toggle (scrollIntoView api toggle w)))))"

definition clickFirstCollapsed :: "'w playwright \<Rightarrow> ('w, unit) action" where
  "clickFirstCollapsed api =
     evaluate_script api ClickFirstCollapsed
       (\<lambda>w. ((), clickFirstCollapsed_nodes api (toggleNodes api w) w))"

subsection \<open>The loops\<close>

definition maxIterations_index :: nat where "maxIterations_index = 20"
definition maxIterations_part_000 :: nat where "maxIterations_part_000 = 20"
definition maxIterations_part_001 :: nat where "maxIterations_part_001 = 100"

function expand_loop_index :: "'w playwright \<Rightarrow> nat \<Rightarrow> int \<Rightarrow> ('w, unit) action" where
  "expand_loop_index api iteration lastClickCount s =
     (if iteration < maxIterations_index then
        (case clickAllCollapsed api s of
           (Inl e, s') \<Rightarrow> (Inl e, s')
         | (Inr clickedCount, s') \<Rightarrow>
             if clickedCount = 0 \<or> clickedCount = lastClickCount then (Inr (), s')
             else (case call (WaitForTimeout 100) (waitForTimeout api 100) s' of
                     (Inl e, s'') \<Rightarrow> (Inl e, s'')
                   | (Inr u, s'') \<Rightarrow> expand_loop_index api (iteration + 1) clickedCount s''))
      else (Inr (), s))"
  by pat_completeness auto
termination
  by (relation "measure (\<lambda>(api, iteration, lastClickCount, s). maxIterations_index - iteration)")
     auto

function expand_loop_part_000 :: "'w playwright \<Rightarrow> nat \<Rightarrow> int \<Rightarrow> ('w, unit) action" where
  "expand_loop_part_000 api iteration lastClickCount s =
     (if iteration < maxIterations_part_000 then
        (case clickAllCollapsed api s of
           (Inl e, s') \<Rightarrow> (Inl e, s')
         | (Inr clickedCount, s') \<Rightarrow>
             if iteration > 0 \<and> clickedCount = lastClickCount then (Inr (), s')
             else if clickedCount = 0 \<and> iteration > 2 then (Inr (), s')
             else (case call (WaitForTimeout 300) (waitForTimeout api 300) s' of
                     (Inl e, s'') \<Rightarrow> (Inl e, s'')
                   | (Inr u, s'') \<Rightarrow> expand_loop_part_000 api (iteration + 1) clickedCount s''))
      else (Inr (), s))"
  by pat_completeness auto
termination
  by (relation "measure (\<lambda>(api, iteration, lastClickCount, s). maxIterations_part_000 - iteration)")
     auto

function expand_loop_part_001 :: "'w playwright \<Rightarrow> nat \<Rightarrow> ('w, unit) action" where
  "expand_loop_part_001 api iteration s =
     (if iteration < maxIterations_part_001 then
        (case getCollapsedCount api s of
           (Inl e, s') \<Rightarrow> (Inl e, s')
         | (Inr collapsed_before, s') \<Rightarrow>
             if collapsed_before = 0 then (Inr (), s')
             else (case clickFirstCollapsed api s' of
                     (Inl e, s'') \<Rightarrow> (Inl e, s'')
                   | (Inr u, s'') \<Rightarrow>
                       (case call (WaitForTimeout 500) (waitForTimeout api 500) s'' of
                          (Inl e, s''') \<Rightarrow> (Inl e, s''')
                        | (Inr u, s''') \<Rightarrow> expand_loop_part_001 api (iteration + 1) s''')))
      else (Inr (), s))"
  by pat_completeness auto
termination
  by (relation "measure (\<lambda>(api, iteration, s). maxIterations_part_001 - iteration)") auto

section \<open>The handler\<close>

text \<open>
  The body of the \<^verbatim>\<open>try\<close> block of each variant. The inner \<^verbatim>\<open>try\<close> around the
  expansion logs the fault and goes on.
\<close>

definition try_body_index :: "'w playwright \<Rightarrow> string \<Rightarrow> ('w, response) action" where
  "try_body_index api notionUrl =
     await (launch_browser api) (\<lambda>_.
     await (call NewPage (newPage api)) (\<lambda>_.
     await (call (Goto notionUrl domcontentloaded 60000)
                 (goto api notionUrl domcontentloaded 60000)) (\<lambda>_.
     await (call (WaitForSelector 5000) (waitForSelector api sel_content_root 5000)) (\<lambda>_.
     await (try_catch (expand_loop_index api 0 (- 1)) console_log) (\<lambda>_.
     await (call (WaitForTimeout 500) (waitForTimeout api 500)) (\<lambda>_.
     await (evaluate_script api ExtractContent (\<lambda>w. (extract_index (document api w), w)))
       (\<lambda>extractedData.
     await (call Close (close api)) (\<lambda>_.
     return (success_response extractedData)))))))))"

definition try_body_part_000 :: "'w playwright \<Rightarrow> string \<Rightarrow> ('w, response) action" where
  "try_body_part_000 api notionUrl =
     await (launch_browser api) (\<lambda>_.
     await (call NewPage (newPage api)) (\<lambda>_.
     await (call (Goto notionUrl networkidle 60000)
                 (goto api notionUrl networkidle 60000)) (\<lambda>_.
     await (call (WaitForSelector 10000) (waitForSelector api sel_content_root 10000)) (\<lambda>_.
     await (call (WaitForTimeout 1000) (waitForTimeout api 1000)) (\<lambda>_.
     await (try_catch (expand_loop_part_000 api 0 (- 1)) console_log) (\<lambda>_.
     await (call (WaitForTimeout 1500) (waitForTimeout api 1500)) (\<lambda>_.
     await (evaluate_script api ExtractContent (\<lambda>w. (extract_part_000 (document api w), w)))
       (\<lambda>extractedData.
     await (call Close (close api)) (\<lambda>_.
     return (success_response extractedData))))))))))"

definition try_body_part_001 :: "'w playwright \<Rightarrow> string \<Rightarrow> ('w, response) action" where
  "try_body_part_001 api notionUrl =
     await (launch_browser api) (\<lambda>_.
     await (call NewPage (newPage api)) (\<lambda>_.
     await (call (Goto notionUrl domcontentloaded 60000)
                 (goto api notionUrl domcontentloaded 60000)) (\<lambda>_.
     await (call (WaitForSelector 10000) (waitForSelector api sel_content_root 10000)) (\<lambda>_.
     await (try_catch (expand_loop_part_001 api 0) console_log) (\<lambda>_.
     await (call (WaitForTimeout 2000) (waitForTimeout api 2000)) (\<lambda>_.
     await (evaluate_script api ExtractContent (\<lambda>w. (extract_part_001 (document api w), w)))
       (\<lambda>extractedData.
     await (call Close (close api)) (\<lambda>_.
     return (success_response extractedData)))))))))"

definition catch_block :: "'w playwright \<Rightarrow> thrown \<Rightarrow> ('w, response) action" where
  "catch_block api error =
     await (\<lambda>s. if browser s then call Close (close api) s else (Inr (), s)) (\<lambda>_.
     return (failure_response error))"

text \<open>
  The three files share the routing and the \<^verbatim>\<open>catch\<close> block; they differ in the
  test of the \<^verbatim>\<open>url\<close> parameter and in the \<^verbatim>\<open>try\<close> body.
\<close>

definition handler ::
  "(string \<Rightarrow> bool) \<Rightarrow> (string \<Rightarrow> ('w, response) action) \<Rightarrow> 'w playwright \<Rightarrow> request
     \<Rightarrow> ('w, response) action" where
  "handler rejected try_body api req =
     (if pathname req \<noteq> ''/scrape'' then return not_found_response
      else if http_method req = ''OPTIONS'' then return options_response
      else (case searchParams_get req ''url'' of
              None \<Rightarrow> return missing_url_response
            | Some notionUrl \<Rightarrow>
                if notionUrl = [] then return missing_url_response
                else if rejected notionUrl then return invalid_url_response
                else try_catch (try_body notionUrl) (catch_block api)))"

definition rejected_index :: "string \<Rightarrow> bool" where
  "rejected_index notionUrl =
     (\<not> str_includes notionUrl ''notion.so'' \<and> \<not> str_includes notionUrl ''notion.site'')"

definition rejected_part_000 :: "string \<Rightarrow> bool" where
  "rejected_part_000 notionUrl =
     (\<not> str_includes notionUrl ''notion.so'' \<and> \<not> str_includes notionUrl ''notion.site'')"

definition rejected_part_001 :: "string \<Rightarrow> bool" where
  "rejected_part_001 notionUrl =
     (\<not> str_includes notionUrl ''notion.so'' \<or> \<not> str_includes notionUrl ''notion.site'')"

definition fetch_index :: "'w playwright \<Rightarrow> request \<Rightarrow> 'w \<Rightarrow> (thrown + response) \<times> 'w run" where
  "fetch_index api req w = handler rejected_index (try_body_index api) api req (start w)"

definition fetch_part_000 :: "'w playwright \<Rightarrow> request \<Rightarrow> 'w \<Rightarrow> (thrown + response) \<times> 'w run" where
  "fetch_part_000 api req w = handler rejected_part_000 (try_body_part_000 api) api req (start w)"

definition fetch_part_001 :: "'w playwright \<Rightarrow> request \<Rightarrow> 'w \<Rightarrow> (thrown + response) \<times> 'w run" where
  "fetch_part_001 api req w = handler rejected_part_001 (try_body_part_001 api) api req (start w)"


section \<open>Example inputs\<close>

text \<open>
  Concrete pages, browsers and requests on which the properties below are
  evaluated. \<open>demo_doc\<close> is a page with a title, a content root and two sibling
  blocks; \<open>demo_api\<close> is a browser in which every call resolves, whose state is the
  number of toggles still collapsed (a click expands one); \<open>demo_request\<close> is a
  well-formed scrape request. The other browsers differ from \<open>demo_api\<close> in one
  call or in the page they show.
\<close>

definition demo_doc :: node where
  "demo_doc =
     Element ''html'' []
       [Element ''body'' []
          [Element ''h1'' [(''data-content-editable-leaf'', ''true'')] [Text '' My page ''],
           Element ''div'' [(''data-content-editable-root'', ''true'')]
             [Element ''div'' [(''data-block-id'', ''a'')] [Text '' alpha ''],
              Element ''div'' [(''data-block-id'', ''b'')] [Text ''beta'']]]]"

definition demo_api :: "nat playwright" where
  "demo_api =
     \<lparr>launch = (\<lambda>w. (None, w)),
      newPage = (\<lambda>w. (None, w)),
      goto = (\<lambda>url wu timeout w. (None, w)),
      waitForSelector = (\<lambda>sel timeout w. (None, w)),
      waitForTimeout = (\<lambda>timeout w. (None, w)),
      evaluate = (\<lambda>sc w. (None, w)),
      close = (\<lambda>w. (None, w)),
      document = (\<lambda>w. demo_doc),
      toggleNodes = (\<lambda>w. [0..<w]),
      isConnected = (\<lambda>h w. True),
      getBoundingClientRect =
        (\<lambda>h w. \<lparr>rect_width = 24, rect_height = 24, rect_bottom = 124, rect_right = 124\<rparr>),
      ariaDisabled = (\<lambda>h w. None),
      scrollIntoView = (\<lambda>h w. w),
      dispatchClick = (\<lambda>h w. w - 1)\<rparr>"

definition demo_request :: request where
  "demo_request =
     \<lparr>http_method = ''GET'', pathname = ''/scrape'',
      searchParams = [(''url'', ''https://www.notion.so/My-Page-abc123'')]\<rparr>"

definition fault_api :: "nat playwright" where
  \<comment> \<open>The navigation rejects.\<close>
  "fault_api =
     demo_api\<lparr>goto := (\<lambda>url wu timeout w. (Some (Error ''net::ERR_NAME_NOT_RESOLVED''), w))\<rparr>"

definition empty_message_api :: "nat playwright" where
  \<comment> \<open>The launch rejects with \<^verbatim>\<open>new Error()\<close>, whose message is the empty string.\<close>
  "empty_message_api = demo_api\<lparr>launch := (\<lambda>w. (Some (Error []), w))\<rparr>"

definition stubborn_api :: "nat playwright" where
  \<comment> \<open>Collapsed toggles are present at every query: a click expands nothing, and the
      number of toggles found alternates between one and two.\<close>
  "stubborn_api =
     demo_api\<lparr>toggleNodes := (\<lambda>w. [0..<Suc (w mod 2)]),
              dispatchClick := (\<lambda>h w. w),
              waitForTimeout := (\<lambda>timeout w. (None, Suc w))\<rparr>"

definition both_markers_request :: request where
  "both_markers_request =
     \<lparr>http_method = ''GET'', pathname = ''/scrape'',
      searchParams = [(''url'', ''https://notion.site/p?src=notion.so'')]\<rparr>"



definition other_path_request :: request where
  "other_path_request =
     \<lparr>http_method = ''GET'', pathname = ''/'',
      searchParams = [(''url'', ''https://www.notion.so/My-Page-abc123'')]\<rparr>"

definition missing_url_request :: request where
  "missing_url_request = \<lparr>http_method = ''GET'', pathname = ''/scrape'', searchParams = []\<rparr>"

definition foreign_url_request :: request where
  "foreign_url_request =
     \<lparr>http_method = ''GET'', pathname = ''/scrape'',
      searchParams = [(''url'', ''https://example.com/page'')]\<rparr>"

definition string_throw_api :: "nat playwright" where
  \<comment> \<open>Opening the page rejects with a value that is not an \<^verbatim>\<open>Error\<close>.\<close>
  "string_throw_api = demo_api\<lparr>newPage := (\<lambda>w. (Some (NonError ''closed''), w))\<rparr>"

definition no_root_doc :: node where
  "no_root_doc =
     Element ''html'' []
       [Element ''body'' []
          [Element ''h1'' [(''data-content-editable-leaf'', ''true'')] [Text ''Loading''],
           Element ''div'' [(''class'', ''spinner'')] []]]"



definition vanishing_api :: "nat playwright" where
  \<comment> \<open>The content root is in the page while the handler waits for it (state 0) and
      has been removed when the extraction script runs (state 1).\<close>
  "vanishing_api =
     demo_api\<lparr>document := (\<lambda>w. if w = 0 then demo_doc else no_root_doc),
              evaluate := (\<lambda>sc w. (None, if sc = ExtractContent then 1 else w))\<rparr>"

definition media_doc :: node where
  "media_doc =
     Element ''html'' []
       [Element ''body'' []
          [Element ''h1'' [(''data-content-editable-leaf'', ''true'')] [Text ''Media''],
           Element ''div'' [(''data-content-editable-root'', ''true'')]
             [Element ''div'' [(''data-block-id'', ''d'')]
                [Element ''audio'' [(''src'', ''a.mp3'')] [], Text ''hello''],
              Element ''div'' [(''data-block-id'', ''e'')]
                [Element ''img'' [(''src'', ''p.png'')] [], Text ''pic''],
              Element ''div'' [(''data-block-id'', ''g'')]
                [Text ''outer'',
                 Element ''div'' [(''data-block-id'', ''h'')]
                   [Element ''span'' [(''class'', ''notion-image-inline'')] [], Text ''inner'']],
              Element ''div'' [(''data-block-id'', ''f'')] [Text ''plain'']]]]"

definition duplicate_doc :: node where
  "duplicate_doc =
     Element ''html'' []
       [Element ''body'' []
          [Element ''div'' [(''data-content-editable-root'', ''true'')]
             [Element ''div'' [(''data-block-id'', ''x'')] [Text ''N/A''],
              Element ''div'' [(''data-block-id'', ''y'')] [Text '' N/A''],
              Element ''div'' [(''data-block-id'', ''z'')] [Text '' ''],
              Element ''div'' [(''data-block-id'', ''w'')] []]]]"

section \<open>Predicates used to state the properties\<close>

definition reaches_scrape :: "(string \<Rightarrow> bool) \<Rightarrow> request \<Rightarrow> string \<Rightarrow> bool" where
  \<comment> \<open>The request passes the four checks of the handler, with \<^verbatim>\<open>url\<close> parameter \<open>notionUrl\<close>.\<close>
  "reaches_scrape rejected req notionUrl =
     (pathname req = ''/scrape'' \<and> http_method req \<noteq> ''OPTIONS'' \<and>
      searchParams_get req ''url'' = Some notionUrl \<and> notionUrl \<noteq> [] \<and> \<not> rejected notionUrl)"

definition keeps_browser :: "('w, 'a) action \<Rightarrow> bool" where
  \<comment> \<open>The action does not assign the variable \<^verbatim>\<open>browser\<close>.\<close>
  "keeps_browser m = (\<forall>s r s'. m s = (r, s') \<longrightarrow> browser s' = browser s)"

definition closes_before_return :: "('w, 'a) action \<Rightarrow> bool" where
  \<comment> \<open>Run with a browser, the action keeps it and, when it returns a value, its last call is \<^verbatim>\<open>close\<close>.\<close>
  "closes_before_return m =
     (\<forall>s r s'. browser s \<longrightarrow> m s = (r, s') \<longrightarrow>
        browser s' \<and> (\<forall>x. r = Inr x \<longrightarrow> trace s' \<noteq> [] \<and> last (trace s') = Close))"



declare closest.simps [simp del]
declare expand_loop_index.simps [simp del]
declare expand_loop_part_000.simps [simp del]
declare expand_loop_part_001.simps [simp del]

section \<open>Properties of the DOM model\<close>

lemma node_at_Element_Cons [simp]:
  "node_at (Element t as cs) (k # q) = (if k < length cs then node_at (cs ! k) q else None)"
  by simp

lemma node_at_Text_Cons [simp]: "node_at (Text s) (k # q) = None"
  by simp

lemma node_at_append:
  "node_at n (p @ q) = (case node_at n p of None \<Rightarrow> None | Some m \<Rightarrow> node_at m q)"
  by (induction p arbitrary: n) auto

lemma in_descendants_iff:
  "(q, m) \<in> set (descendants n) \<longleftrightarrow> q \<noteq> [] \<and> node_at n q = Some m \<and> is_element m"
  and in_descendants_from_iff:
  "(q, m) \<in> set (descendants_from i cs) \<longleftrightarrow>
     (\<exists>j q'. q = (i + j) # q' \<and> j < length cs \<and> node_at (cs ! j) q' = Some m \<and> is_element m)"
proof (induction n and i cs arbitrary: q m and q m rule: descendants_descendants_from.induct)
  case (1 s)
  show ?case by (cases q) auto
next
  case (2 t as cs)
  show ?case
  proof (cases q)
    case Nil
    then show ?thesis using 2 by auto
  next
    case (Cons k q')
    then show ?thesis using 2 by auto
  qed
next
  case (3 i)
  show ?case by simp
next
  case (4 i c cs)
  have "(q, m) \<in> set (descendants_from i (c # cs)) \<longleftrightarrow>
        (is_element c \<and> q = [i] \<and> m = c) \<or>
        (\<exists>q'. q = i # q' \<and> (q', m) \<in> set (descendants c)) \<or>
        (q, m) \<in> set (descendants_from (Suc i) cs)"
    by auto
  also have "\<dots> \<longleftrightarrow>
        (\<exists>q'. q = i # q' \<and> node_at c q' = Some m \<and> is_element m) \<or>
        (\<exists>j q'. q = (Suc i + j) # q' \<and> j < length cs \<and> node_at (cs ! j) q' = Some m \<and> is_element m)"
    unfolding 4 by (cases q; cases "tl q") auto
  also have "\<dots> \<longleftrightarrow>
        (\<exists>j q'. q = (i + j) # q' \<and> j < length (c # cs) \<and> node_at ((c # cs) ! j) q' = Some m \<and> is_element m)"
    (is "?L \<longleftrightarrow> ?R")
  proof
    assume ?L
    then show ?R
    proof
      assume "\<exists>q'. q = i # q' \<and> node_at c q' = Some m \<and> is_element m"
      then obtain q' where "q = (i + 0) # q'" "node_at ((c # cs) ! 0) q' = Some m" "is_element m" by auto
      then show ?R by (metis length_greater_0_conv list.distinct(1))
    next
      assume "\<exists>j q'. q = (Suc i + j) # q' \<and> j < length cs \<and> node_at (cs ! j) q' = Some m \<and> is_element m"
      then obtain j q' where "q = (i + Suc j) # q'" "Suc j < length (c # cs)"
        "node_at ((c # cs) ! Suc j) q' = Some m" "is_element m" by auto
      then show ?R by blast
    qed
  next
    assume ?R
    then obtain j q' where *: "q = (i + j) # q'" "j < length (c # cs)"
        "node_at ((c # cs) ! j) q' = Some m" "is_element m" by blast
    show ?L
    proof (cases j)
      case 0
      with * show ?thesis by auto
    next
      case (Suc j')
      with * show ?thesis by auto
    qed
  qed
  finally show ?case .
qed


lemma descendants_from_head:
  "(q, m) \<in> set (descendants_from i cs) \<Longrightarrow> \<exists>k q'. q = k # q' \<and> i \<le> k"
  unfolding in_descendants_from_iff by auto

lemma distinct_descendants: "distinct (map fst (descendants n))"
  and distinct_descendants_from: "distinct (map fst (descendants_from i cs))"
proof (induction n and i cs rule: descendants_descendants_from.induct)
  case (4 i c cs)
  have nonempty: "\<And>q m. (q, m) \<in> set (descendants c) \<Longrightarrow> q \<noteq> []"
    by (simp add: in_descendants_iff)
  have later: "\<And>q m. (q, m) \<in> set (descendants_from (Suc i) cs) \<Longrightarrow> \<exists>k q'. q = k # q' \<and> Suc i \<le> k"
    by (rule descendants_from_head)
  have "distinct (map ((#) i) ys)" if "distinct ys" for ys :: "path list"
    using that by (induction ys) auto
  then have d1: "distinct (map ((#) i) (map fst (descendants c)))"
    using 4 by blast
  have d2: "distinct (map fst (descendants_from (Suc i) cs))"
    using 4 by blast
  have sep1: "[i] \<notin> set (map ((#) i) (map fst (descendants c)))"
    using nonempty by force
  have sep2: "[i] \<notin> set (map fst (descendants_from (Suc i) cs))"
    using later by fastforce
  have sep3: "set (map ((#) i) (map fst (descendants c))) \<inter>
              set (map fst (descendants_from (Suc i) cs)) = {}"
    using later by fastforce
  have "map fst (descendants_from i (c # cs)) =
          (if is_element c then [[i]] else []) @ map ((#) i) (map fst (descendants c)) @
          map fst (descendants_from (Suc i) cs)"
    by (simp add: case_prod_beta comp_def)
  then show ?case
    using d1 d2 sep1 sep2 sep3 by (simp del: map_map set_map)
qed simp_all

lemma matches_is_element: "matches sel m \<Longrightarrow> is_element m"
  by (auto simp: matches_def matches_compound_def list_ex_iff)

lemma in_querySelectorAll_iff:
  "(b, m) \<in> set (querySelectorAll doc r sel) \<longleftrightarrow>
     (\<exists>q. q \<noteq> [] \<and> b = r @ q \<and> node_at doc b = Some m \<and> matches sel m)"
proof (cases "node_at doc r")
  case None
  then show ?thesis by (auto simp: querySelectorAll_def node_at_append)
next
  case (Some el)
  have "(b, m) \<in> set (querySelectorAll doc r sel) \<longleftrightarrow>
        (\<exists>q. b = r @ q \<and> (q, m) \<in> set (descendants el) \<and> matches sel m)"
    using Some by (auto simp: querySelectorAll_def)
  also have "\<dots> \<longleftrightarrow> (\<exists>q. q \<noteq> [] \<and> b = r @ q \<and> node_at doc b = Some m \<and> matches sel m)"
    using Some by (auto simp: in_descendants_iff node_at_append matches_is_element)
  finally show ?thesis .
qed

lemma distinct_querySelectorAll: "distinct (map fst (querySelectorAll doc r sel))"
proof (cases "node_at doc r")
  case None
  then show ?thesis by (simp add: querySelectorAll_def)
next
  case (Some el)
  have shift: "map fst (map (\<lambda>(q, m). (r @ q, m)) xs) = map ((@) r) (map fst xs)"
    for xs :: "(path \<times> node) list"
    by (induction xs) auto
  have inj: "distinct (map ((@) r) ys)" if "distinct ys" for ys :: "path list"
    using that by (induction ys) auto
  have "distinct (map fst (filter (\<lambda>(q, m). matches sel m) (descendants el)))"
    using distinct_descendants [of el] by (rule distinct_map_filter)
  then have "distinct (map fst (map (\<lambda>(q, m). (r @ q, m))
               (filter (\<lambda>(q, m). matches sel m) (descendants el))))"
    unfolding shift by (rule inj)
  then show ?thesis
    using Some by (simp add: querySelectorAll_def)
qed

lemma prefix_butlast_strict: "prefix q p \<Longrightarrow> q \<noteq> p \<Longrightarrow> prefix q (butlast p)"
  by (auto simp: prefix_def butlast_append)

lemma closest_Some:
  "closest doc sel p = Some q \<Longrightarrow>
     prefix q p \<and> (\<exists>m. node_at doc q = Some m \<and> matches sel m) \<and>
     (\<forall>q' m'. prefix q' p \<and> node_at doc q' = Some m' \<and> matches sel m' \<longrightarrow> prefix q' q)"
proof (induction doc sel p rule: closest.induct)
  case (1 doc sel p)
  show ?case
  proof (cases "case node_at doc p of None \<Rightarrow> False | Some m \<Rightarrow> matches sel m")
    case True
    then have "q = p" using "1.prems" by (subst (asm) closest.simps) simp
    with True show ?thesis by (auto split: option.splits)
  next
    case False
    then have ne: "p \<noteq> []" and rec: "closest doc sel (butlast p) = Some q"
      using "1.prems" by (subst (asm) closest.simps; simp split: if_splits)+
    from "1.IH" [OF False ne rec] have
      IH: "prefix q (butlast p)" "\<exists>m. node_at doc q = Some m \<and> matches sel m"
        "\<forall>q' m'. prefix q' (butlast p) \<and> node_at doc q' = Some m' \<and> matches sel m' \<longrightarrow> prefix q' q"
      by auto
    have "prefix q p" using IH(1) by (metis prefix_order.trans prefixeq_butlast)
    moreover have "prefix q' q" if "prefix q' p" "node_at doc q' = Some m'" "matches sel m'" for q' m'
    proof -
      have "q' \<noteq> p" using that False by auto
      then show ?thesis using IH(3) that prefix_butlast_strict by blast
    qed
    ultimately show ?thesis using IH(2) by blast
  qed
qed

lemma closest_None:
  "closest doc sel p = None \<Longrightarrow> prefix q' p \<Longrightarrow> node_at doc q' = Some m' \<Longrightarrow> \<not> matches sel m'"
proof (induction doc sel p rule: closest.induct)
  case (1 doc sel p)
  have F: "\<not> (case node_at doc p of None \<Rightarrow> False | Some m \<Rightarrow> matches sel m)"
    using "1.prems"(1) by (subst (asm) closest.simps) (simp split: if_splits)
  show ?case
  proof (cases "q' = p")
    case True
    then show ?thesis using F "1.prems" by simp
  next
    case False
    then have ne: "p \<noteq> []" using "1.prems"(2) by auto
    have rec: "closest doc sel (butlast p) = None"
      using "1.prems"(1) F ne by (subst (asm) closest.simps) simp
    show ?thesis
      using "1.IH" [OF F ne rec _ "1.prems"(3)] prefix_butlast_strict [OF "1.prems"(2) False]
      by blast
  qed
qed




text \<open>After the removal no proper descendant of the clone matches the selector.\<close>

lemma matches_cong_node:
  assumes "is_element a = is_element b" "tagName a = tagName b" "getAttribute a = getAttribute b"
  shows "matches sel a = matches sel b"
proof -
  have "matches_simple x a = matches_simple x b" for x
    using assms(2,3) by (cases x) simp_all
  then have "(\<lambda>s. matches_simple s a) = (\<lambda>s. matches_simple s b)" by (rule ext)
  then show ?thesis using assms(1) by (simp add: matches_def matches_compound_def)
qed

lemma matches_remove_matching [simp]: "matches sel (remove_matching sel' n) = matches sel n"
proof (cases n)
  case (Text s)
  then show ?thesis by simp
next
  case (Element t as cs)
  have "matches sel (Element t as cs') = matches sel (Element t as cs)" for cs'
    by (rule matches_cong_node) (simp_all add: fun_eq_iff)
  then show ?thesis using Element by simp
qed

lemma remove_matching_complete:
  "(q, d) \<in> set (descendants (remove_matching sel n)) \<Longrightarrow> \<not> matches sel d"
proof (induction n arbitrary: q d)
  case (Text s)
  then show ?case by simp
next
  case (Element t as cs)
  let ?cs = "map (remove_matching sel) (filter (\<lambda>c. \<not> matches sel c) cs)"
  from Element.prems have "(q, d) \<in> set (descendants (Element t as ?cs))" by simp
  then obtain j q' where j: "q = j # q'" "j < length ?cs" "node_at (?cs ! j) q' = Some d"
    unfolding in_descendants_iff by (cases q) (auto split: if_splits)
  let ?kept = "filter (\<lambda>c. \<not> matches sel c) cs"
  from j(2) have jk: "j < length ?kept" by simp
  then have "?kept ! j \<in> set ?kept" by (rule nth_mem)
  then have "?kept ! j \<in> set cs" "\<not> matches sel (?kept ! j)" by simp_all
  moreover have "?cs ! j = remove_matching sel (?kept ! j)" using jk by simp
  ultimately obtain c where c: "c \<in> set cs" "\<not> matches sel c" "?cs ! j = remove_matching sel c"
    by blast
  show ?case
  proof (cases q')
    case Nil
    then have "d = remove_matching sel c" using j(3) c(3) by simp
    then show ?thesis using c(2) by simp
  next
    case (Cons k q'')
    have "is_element d" using Element.prems unfolding in_descendants_iff by simp
    then have "(q', d) \<in> set (descendants (remove_matching sel c))"
      unfolding in_descendants_iff using j(3) c(3) Cons by simp
    then show ?thesis using Element.IH [OF c(1)] by blast
  qed
qed

lemma descendants_trans:
  assumes "node_at n q = Some m" "(q', d) \<in> set (descendants m)"
  shows "(q @ q', d) \<in> set (descendants n)"
  using assms unfolding in_descendants_iff by (simp add: node_at_append)

section \<open>Properties of the handler\<close>

subsection \<open>Strings and routing\<close>

text \<open>\<open>str_includes\<close> is substring containment.\<close>

lemma str_includes_iff: "str_includes s sub \<longleftrightarrow> (\<exists>a b. s = a @ sub @ b)"
proof (induction s)
  case Nil
  show ?case by auto
next
  case (Cons c cs)
  have "(\<exists>a b. c # cs = a @ sub @ b) \<longleftrightarrow> prefix sub (c # cs) \<or> (\<exists>a b. cs = a @ sub @ b)"
    (is "?L \<longleftrightarrow> ?R")
  proof
    assume ?L
    then obtain a b where ab: "c # cs = a @ sub @ b" by blast
    show ?R
    proof (cases a)
      case Nil
      with ab show ?thesis by (auto simp: prefix_def)
    next
      case (Cons x a')
      with ab have "cs = a' @ sub @ b" by simp
      then show ?thesis by blast
    qed
  next
    assume ?R
    then show ?L
    proof
      assume "prefix sub (c # cs)"
      then obtain b where "c # cs = [] @ sub @ b" by (auto simp: prefix_def)
      then show ?L by blast
    next
      assume "\<exists>a b. cs = a @ sub @ b"
      then obtain a b where "c # cs = (c # a) @ sub @ b" by auto
      then show ?L by blast
    qed
  qed
  then show ?case using Cons by simp
qed

lemma demo_api_fields [simp]:
  "launch demo_api w = (None, w)"
  "newPage demo_api w = (None, w)"
  "goto demo_api url wu t w = (None, w)"
  "waitForSelector demo_api sel t w = (None, w)"
  "waitForTimeout demo_api t w = (None, w)"
  "evaluate demo_api sc w = (None, w)"
  "close demo_api w = (None, w)"
  "document demo_api w = demo_doc"
  "toggleNodes demo_api w = [0..<w]"
  by (simp_all add: demo_api_def)

lemma handler_not_found:
  "pathname req \<noteq> ''/scrape'' \<Longrightarrow> handler rejected tb api req s = (Inr not_found_response, s)"
  by (simp add: handler_def return_def)


lemma handler_scrape:
  "pathname req = ''/scrape'' \<Longrightarrow> http_method req \<noteq> ''OPTIONS'' \<Longrightarrow>
   searchParams_get req ''url'' = Some u \<Longrightarrow> u \<noteq> [] \<Longrightarrow> \<not> rejected u \<Longrightarrow>
   handler rejected tb api req s = try_catch (tb u) (catch_block api) s"
  by (simp add: handler_def)

subsection \<open>Effects of the actions\<close>

lemma keeps_call: "keeps_browser (call ev f)"
  by (auto simp: keeps_browser_def call_def split: prod.splits option.splits)

lemma keeps_return: "keeps_browser (return x)"
  by (simp add: keeps_browser_def return_def)

lemma keeps_console_log: "keeps_browser (console_log e)"
  by (simp add: keeps_browser_def console_log_def)

lemma keeps_evaluate_script: "keeps_browser (evaluate_script api name fn)"
  by (auto simp: keeps_browser_def evaluate_script_def split: prod.splits option.splits)

lemma call_run:
  "call ev f s = (r, s') \<Longrightarrow> browser s' = browser s \<and> trace s' = trace s @ [ev]"
  by (auto simp: call_def split: prod.splits option.splits)

lemma evaluate_script_run:
  "evaluate_script api name fn s = (r, s') \<Longrightarrow>
     browser s' = browser s \<and> trace s' = trace s @ [Evaluate name]"
  by (auto simp: evaluate_script_def split: prod.splits option.splits)

lemma expand_loop_index_run:
  "expand_loop_index api iteration lastClickCount s = (r, s') \<Longrightarrow>
     browser s' = browser s \<and>
     (\<exists>evs. trace s' = trace s @ evs \<and>
        count_list evs (Evaluate ClickAllCollapsed) \<le> maxIterations_index - iteration \<and>
        set evs \<subseteq> {Evaluate ClickAllCollapsed, WaitForTimeout 100})"
proof (induction api iteration lastClickCount s rule: expand_loop_index.induct)
  case (1 api iteration lastClickCount s)
  show ?case
  proof (cases "iteration < maxIterations_index")
    case False
    then show ?thesis using "1.prems" by (subst (asm) expand_loop_index.simps) simp
  next
    case True
    obtain rc s1 where c: "clickAllCollapsed api s = (rc, s1)" by fastforce
    have s1: "browser s1 = browser s" "trace s1 = trace s @ [Evaluate ClickAllCollapsed]"
      using c evaluate_script_run unfolding clickAllCollapsed_def by blast+
    show ?thesis
    proof (cases rc)
      case (Inl e)
      then have "s' = s1" using "1.prems" True c by (subst (asm) expand_loop_index.simps) simp
      then show ?thesis using s1 True by simp
    next
      case (Inr clickedCount)
      show ?thesis
      proof (cases "clickedCount = 0 \<or> clickedCount = lastClickCount")
        case stop: True
        then have "s' = s1"
          using "1.prems" True c Inr by (subst (asm) expand_loop_index.simps) auto
        then show ?thesis using s1 True by simp
      next
        case go: False
        obtain rt s2 where t: "call (WaitForTimeout 100) (waitForTimeout api 100) s1 = (rt, s2)"
          by fastforce
        have s2: "browser s2 = browser s1" "trace s2 = trace s1 @ [WaitForTimeout 100]"
          using call_run [OF t] by simp_all
        show ?thesis
        proof (cases rt)
          case (Inl e)
          then have "s' = s2"
            using "1.prems" True c Inr go t by (subst (asm) expand_loop_index.simps) auto
          then show ?thesis using s1 s2 True by simp
        next
          case u: (Inr u)
          then have rec: "expand_loop_index api (iteration + 1) clickedCount s2 = (r, s')"
            using "1.prems" True c Inr go t by (subst (asm) expand_loop_index.simps) auto
          from "1.IH" [OF True c [symmetric] Inr go t [symmetric] u rec]
          obtain evs where evs: "browser s' = browser s2" "trace s' = trace s2 @ evs"
            "count_list evs (Evaluate ClickAllCollapsed) \<le> maxIterations_index - (iteration + 1)"
            "set evs \<subseteq> {Evaluate ClickAllCollapsed, WaitForTimeout 100}"
            by blast
          have "trace s' = trace s @ (Evaluate ClickAllCollapsed # WaitForTimeout 100 # evs)"
            using evs s1 s2 by simp
          moreover have "count_list (Evaluate ClickAllCollapsed # WaitForTimeout 100 # evs)
                           (Evaluate ClickAllCollapsed) \<le> maxIterations_index - iteration"
            using evs(3) True by simp
          moreover have "set (Evaluate ClickAllCollapsed # WaitForTimeout 100 # evs)
                           \<subseteq> {Evaluate ClickAllCollapsed, WaitForTimeout 100}"
            using evs(4) by auto
          ultimately show ?thesis using evs(1) s1 s2 by blast
        qed
      qed
    qed
  qed
qed

lemma expand_loop_part_000_run:
  "expand_loop_part_000 api iteration lastClickCount s = (r, s') \<Longrightarrow>
     browser s' = browser s \<and>
     (\<exists>evs. trace s' = trace s @ evs \<and>
        count_list evs (Evaluate ClickAllCollapsed) \<le> maxIterations_part_000 - iteration \<and>
        set evs \<subseteq> {Evaluate ClickAllCollapsed, WaitForTimeout 300})"
proof (induction api iteration lastClickCount s rule: expand_loop_part_000.induct)
  case (1 api iteration lastClickCount s)
  show ?case
  proof (cases "iteration < maxIterations_part_000")
    case False
    then show ?thesis using "1.prems" by (subst (asm) expand_loop_part_000.simps) simp
  next
    case True
    obtain rc s1 where c: "clickAllCollapsed api s = (rc, s1)" by fastforce
    have s1: "browser s1 = browser s" "trace s1 = trace s @ [Evaluate ClickAllCollapsed]"
      using c evaluate_script_run unfolding clickAllCollapsed_def by blast+
    show ?thesis
    proof (cases rc)
      case (Inl e)
      then have "s' = s1" using "1.prems" True c by (subst (asm) expand_loop_part_000.simps) simp
      then show ?thesis using s1 True by simp
    next
      case (Inr clickedCount)
      show ?thesis
      proof (cases "iteration > 0 \<and> clickedCount = lastClickCount")
        case True
        then have "s' = s1"
          using "1.prems" \<open>iteration < maxIterations_part_000\<close> c Inr
          by (subst (asm) expand_loop_part_000.simps) auto
        then show ?thesis using s1 \<open>iteration < maxIterations_part_000\<close> by simp
      next
        case plateau: False
        show ?thesis
        proof (cases "clickedCount = 0 \<and> iteration > 2")
          case True
          then have "s' = s1"
            using "1.prems" \<open>iteration < maxIterations_part_000\<close> c Inr plateau
            by (subst (asm) expand_loop_part_000.simps) auto
          then show ?thesis using s1 \<open>iteration < maxIterations_part_000\<close> by simp
        next
          case go: False
          obtain rt s2 where t: "call (WaitForTimeout 300) (waitForTimeout api 300) s1 = (rt, s2)"
            by fastforce
          have s2: "browser s2 = browser s1" "trace s2 = trace s1 @ [WaitForTimeout 300]"
            using call_run [OF t] by simp_all
          show ?thesis
          proof (cases rt)
            case (Inl e)
            then have "s' = s2"
              using "1.prems" True c Inr plateau go t
              by (subst (asm) expand_loop_part_000.simps) auto
            then show ?thesis using s1 s2 True by simp
          next
            case u: (Inr u)
            then have rec: "expand_loop_part_000 api (iteration + 1) clickedCount s2 = (r, s')"
              using "1.prems" True c Inr plateau go t
              by (subst (asm) expand_loop_part_000.simps) auto
            from "1.IH" [OF True c [symmetric] Inr plateau go t [symmetric] u rec]
            obtain evs where evs: "browser s' = browser s2" "trace s' = trace s2 @ evs"
              "count_list evs (Evaluate ClickAllCollapsed) \<le> maxIterations_part_000 - (iteration + 1)"
              "set evs \<subseteq> {Evaluate ClickAllCollapsed, WaitForTimeout 300}"
              by blast
            have "trace s' = trace s @ (Evaluate ClickAllCollapsed # WaitForTimeout 300 # evs)"
              using evs s1 s2 by simp
            moreover have "count_list (Evaluate ClickAllCollapsed # WaitForTimeout 300 # evs)
                             (Evaluate ClickAllCollapsed) \<le> maxIterations_part_000 - iteration"
              using evs(3) True by simp
            moreover have "set (Evaluate ClickAllCollapsed # WaitForTimeout 300 # evs)
                             \<subseteq> {Evaluate ClickAllCollapsed, WaitForTimeout 300}"
              using evs(4) by auto
            ultimately show ?thesis using evs(1) s1 s2 by blast
          qed
        qed
      qed
    qed
  qed
qed

lemma expand_loop_part_001_run:
  "expand_loop_part_001 api iteration s = (r, s') \<Longrightarrow>
     browser s' = browser s \<and>
     (\<exists>evs. trace s' = trace s @ evs \<and>
        count_list evs (Evaluate GetCollapsedCount) \<le> maxIterations_part_001 - iteration \<and>
        count_list evs (Evaluate ClickFirstCollapsed) \<le> maxIterations_part_001 - iteration \<and>
        set evs \<subseteq> {Evaluate GetCollapsedCount, Evaluate ClickFirstCollapsed, WaitForTimeout 500})"
proof (induction api iteration s rule: expand_loop_part_001.induct)
  case (1 api iteration s)
  show ?case
  proof (cases "iteration < maxIterations_part_001")
    case False
    then show ?thesis using "1.prems" by (subst (asm) expand_loop_part_001.simps) simp
  next
    case True
    obtain rc s1 where c: "getCollapsedCount api s = (rc, s1)" by fastforce
    have s1: "browser s1 = browser s" "trace s1 = trace s @ [Evaluate GetCollapsedCount]"
      using c evaluate_script_run unfolding getCollapsedCount_def by blast+
    show ?thesis
    proof (cases rc)
      case (Inl e)
      then have "s' = s1" using "1.prems" True c by (subst (asm) expand_loop_part_001.simps) simp
      then show ?thesis using s1 True by simp
    next
      case (Inr collapsed_before)
      show ?thesis
      proof (cases "collapsed_before = 0")
        case True
        then have "s' = s1"
          using "1.prems" \<open>iteration < maxIterations_part_001\<close> c Inr
          by (subst (asm) expand_loop_part_001.simps) auto
        then show ?thesis using s1 \<open>iteration < maxIterations_part_001\<close> by simp
      next
        case go: False
        obtain rk s2 where k: "clickFirstCollapsed api s1 = (rk, s2)" by fastforce
        have s2: "browser s2 = browser s1" "trace s2 = trace s1 @ [Evaluate ClickFirstCollapsed]"
          using k evaluate_script_run unfolding clickFirstCollapsed_def by blast+
        show ?thesis
        proof (cases rk)
          case (Inl e)
          then have "s' = s2"
            using "1.prems" True c Inr go k by (subst (asm) expand_loop_part_001.simps) auto
          then show ?thesis using s1 s2 True by simp
        next
          case ku: (Inr ku)
          obtain rt s3 where t: "call (WaitForTimeout 500) (waitForTimeout api 500) s2 = (rt, s3)"
            by fastforce
          have s3: "browser s3 = browser s2" "trace s3 = trace s2 @ [WaitForTimeout 500]"
            using call_run [OF t] by simp_all
          show ?thesis
          proof (cases rt)
            case (Inl e)
            then have "s' = s3"
              using "1.prems" True c Inr go k ku t
              by (subst (asm) expand_loop_part_001.simps) auto
            then show ?thesis using s1 s2 s3 True by simp
          next
            case u: (Inr u)
            then have rec: "expand_loop_part_001 api (iteration + 1) s3 = (r, s')"
              using "1.prems" True c Inr go k ku t
              by (subst (asm) expand_loop_part_001.simps) auto
            from "1.IH" [OF True c [symmetric] Inr go k [symmetric] ku t [symmetric] u rec]
            obtain evs where evs: "browser s' = browser s3" "trace s' = trace s3 @ evs"
              "count_list evs (Evaluate GetCollapsedCount) \<le> maxIterations_part_001 - (iteration + 1)"
              "count_list evs (Evaluate ClickFirstCollapsed) \<le> maxIterations_part_001 - (iteration + 1)"
              "set evs \<subseteq> {Evaluate GetCollapsedCount, Evaluate ClickFirstCollapsed, WaitForTimeout 500}"
              by blast
            let ?evs = "Evaluate GetCollapsedCount # Evaluate ClickFirstCollapsed # WaitForTimeout 500 # evs"
            have "trace s' = trace s @ ?evs"
              using evs s1 s2 s3 by simp
            moreover have "count_list ?evs (Evaluate GetCollapsedCount) \<le> maxIterations_part_001 - iteration"
              using evs(3) True by simp
            moreover have "count_list ?evs (Evaluate ClickFirstCollapsed) \<le> maxIterations_part_001 - iteration"
              using evs(4) True by simp
            moreover have "set ?evs
                \<subseteq> {Evaluate GetCollapsedCount, Evaluate ClickFirstCollapsed, WaitForTimeout 500}"
              using evs(5) by auto
            ultimately show ?thesis using evs(1) s1 s2 s3 by blast
          qed
        qed
      qed
    qed
  qed
qed

lemma keeps_await:
  "keeps_browser m \<Longrightarrow> (\<And>x. keeps_browser (k x)) \<Longrightarrow> keeps_browser (await m k)"
  unfolding keeps_browser_def await_def
  by (auto split: prod.splits sum.splits)

lemma keeps_try_catch:
  "keeps_browser m \<Longrightarrow> (\<And>e. keeps_browser (h e)) \<Longrightarrow> keeps_browser (try_catch m h)"
  unfolding keeps_browser_def try_catch_def
  by (auto split: prod.splits sum.splits)

lemma keeps_expand_loop_index: "keeps_browser (expand_loop_index api i n)"
  unfolding keeps_browser_def using expand_loop_index_run by blast

lemma keeps_expand_loop_part_000: "keeps_browser (expand_loop_part_000 api i n)"
  unfolding keeps_browser_def using expand_loop_part_000_run by blast

lemma keeps_expand_loop_part_001: "keeps_browser (expand_loop_part_001 api i)"
  unfolding keeps_browser_def using expand_loop_part_001_run by blast

lemma closes_await:
  assumes "keeps_browser m" "\<And>x. closes_before_return (k x)"
  shows "closes_before_return (await m k)"
  unfolding closes_before_return_def
proof (intro allI impI)
  fix s r s'
  assume b: "browser s" and run: "await m k s = (r, s')"
  obtain r1 s1 where m: "m s = (r1, s1)" by fastforce
  have b1: "browser s1" using assms(1) m b by (auto simp: keeps_browser_def)
  show "browser s' \<and> (\<forall>x. r = Inr x \<longrightarrow> trace s' \<noteq> [] \<and> last (trace s') = Close)"
  proof (cases r1)
    case (Inl e)
    then have "r = Inl e" "s' = s1" using run m by (simp_all add: await_def)
    then show ?thesis using b1 by simp
  next
    case (Inr y)
    then have "k y s1 = (r, s')" using run m by (simp add: await_def)
    then show ?thesis using assms(2) b1 unfolding closes_before_return_def by blast
  qed
qed

lemma closes_final: "closes_before_return (await (call Close f) (\<lambda>_. return x))"
  unfolding closes_before_return_def await_def return_def
  by (auto split: prod.splits sum.splits dest: call_run)

lemmas keeps_intros =
  keeps_call keeps_return keeps_console_log keeps_evaluate_script keeps_await keeps_try_catch
  keeps_expand_loop_index keeps_expand_loop_part_000 keeps_expand_loop_part_001

lemma launch_browser_run:
  "launch_browser api s = (r, s') \<Longrightarrow> fst (launch api (world s)) = None \<Longrightarrow>
     r = Inr () \<and> browser s' \<and> trace s' = trace s @ [Launch]"
  by (auto simp: launch_browser_def split: prod.splits option.splits)

lemma after_launch:
  assumes "closes_before_return rest"
    and "await (launch_browser api) (\<lambda>_. rest) s = (r, s')"
    and "fst (launch api (world s)) = None"
  shows "browser s' \<and> (\<forall>x. r = Inr x \<longrightarrow> trace s' \<noteq> [] \<and> last (trace s') = Close)"
proof -
  obtain r1 s1 where l: "launch_browser api s = (r1, s1)" by fastforce
  from launch_browser_run [OF l assms(3)] have "r1 = Inr ()" "browser s1" by simp_all
  then have "rest s1 = (r, s')" using assms(2) l by (simp add: await_def)
  then show ?thesis using assms(1) \<open>browser s1\<close> unfolding closes_before_return_def by blast
qed

lemma try_body_index_closes:
  assumes "try_body_index api u s = (r, s')" "fst (launch api (world s)) = None"
  shows "browser s' \<and> (\<forall>x. r = Inr x \<longrightarrow> trace s' \<noteq> [] \<and> last (trace s') = Close)"
  by (rule after_launch [OF _ assms(1) [unfolded try_body_index_def] assms(2)])
     (intro closes_await closes_final keeps_intros)

lemma try_body_part_000_closes:
  assumes "try_body_part_000 api u s = (r, s')" "fst (launch api (world s)) = None"
  shows "browser s' \<and> (\<forall>x. r = Inr x \<longrightarrow> trace s' \<noteq> [] \<and> last (trace s') = Close)"
  by (rule after_launch [OF _ assms(1) [unfolded try_body_part_000_def] assms(2)])
     (intro closes_await closes_final keeps_intros)

lemma try_body_part_001_closes:
  assumes "try_body_part_001 api u s = (r, s')" "fst (launch api (world s)) = None"
  shows "browser s' \<and> (\<forall>x. r = Inr x \<longrightarrow> trace s' \<noteq> [] \<and> last (trace s') = Close)"
  by (rule after_launch [OF _ assms(1) [unfolded try_body_part_001_def] assms(2)])
     (intro closes_await closes_final keeps_intros)

lemma handler_cases:
  obtains (validation) resp where "handler rejected tb api req s = (Inr resp, s)"
      "resp = not_found_response \<or> resp = options_response \<or>
       resp = missing_url_response \<or> resp = invalid_url_response"
      "\<not> (\<exists>u. reaches_scrape rejected req u)"
  | (scrape) u where "reaches_scrape rejected req u"
      "handler rejected tb api req s = try_catch (tb u) (catch_block api) s"
proof (cases "\<exists>u. reaches_scrape rejected req u")
  case True
  then obtain u where u: "reaches_scrape rejected req u" by blast
  then have "handler rejected tb api req s = try_catch (tb u) (catch_block api) s"
    by (simp add: reaches_scrape_def handler_def)
  with u show ?thesis by (rule scrape)
next
  case False
  then have "\<exists>resp. handler rejected tb api req s = (Inr resp, s) \<and>
      (resp = not_found_response \<or> resp = options_response \<or>
       resp = missing_url_response \<or> resp = invalid_url_response)"
    by (auto simp: reaches_scrape_def handler_def return_def split: option.splits)
  with False show ?thesis using validation by blast
qed

lemma catch_block_run:
  assumes "catch_block api e s = (r, s')"
  shows "if browser s then trace s' = trace s @ [Close] else trace s' = trace s"
    and "\<And>resp. r = Inr resp \<Longrightarrow> resp = failure_response e"
  using assms
  by (auto simp: catch_block_def await_def return_def call_def
           split: prod.splits sum.splits option.splits if_splits)

lemma handler_closes:
  assumes tb: "\<And>u s r s'. tb u s = (r, s') \<Longrightarrow> fst (launch api (world s)) = None \<Longrightarrow>
                 browser s' \<and> (\<forall>x. r = Inr x \<longrightarrow> trace s' \<noteq> [] \<and> last (trace s') = Close)"
    and l: "fst (launch api w) = None"
    and run: "handler rejected tb api req (start w) = (r, s')"
    and reached: "Launch \<in> set (trace s')"
  shows "last (trace s') = Close"
proof (cases rule: handler_cases [of rejected tb api req "start w"])
  case (validation resp)
  then have "s' = start w" using run by simp
  then show ?thesis using reached by (simp add: start_def)
next
  case (scrape u)
  obtain r1 s1 where b: "tb u (start w) = (r1, s1)" by fastforce
  have l': "fst (launch api (world (start w))) = None" using l by (simp add: start_def)
  from tb [OF b l'] have s1: "browser s1" "\<And>x. r1 = Inr x \<Longrightarrow> last (trace s1) = Close"
    by simp_all
  show ?thesis
  proof (cases r1)
    case (Inl e)
    then have "catch_block api e s1 = (r, s')"
      using run scrape(2) b by (simp add: try_catch_def)
    from catch_block_run(1) [OF this] s1(1) show ?thesis by simp
  next
    case (Inr x)
    then have "s' = s1" using run scrape(2) b by (simp add: try_catch_def)
    then show ?thesis using s1(2) Inr by simp
  qed
qed

subsection \<open>Runs on the example inputs\<close>

lemma fault_api_fields [simp]:
  "launch fault_api w = (None, w)"
  "newPage fault_api w = (None, w)"
  "goto fault_api url wu t w = (Some (Error ''net::ERR_NAME_NOT_RESOLVED''), w)"
  "close fault_api w = (None, w)"
  by (simp_all add: fault_api_def demo_api_def)

lemma demo_request_reaches:
  "reaches_scrape rejected_index demo_request ''https://www.notion.so/My-Page-abc123''"
  "reaches_scrape rejected_part_000 demo_request ''https://www.notion.so/My-Page-abc123''"
  by (simp_all add: reaches_scrape_def demo_request_def searchParams_get_def
        rejected_index_def rejected_part_000_def)

lemmas run_defs = await_def call_def launch_browser_def try_catch_def evaluate_script_def
  return_def start_def catch_block_def console_log_def

lemma fault_run_index:
  "fetch_index fault_api demo_request 0 =
     (Inr (failure_response (Error ''net::ERR_NAME_NOT_RESOLVED'')),
      \<lparr>world = 0,
       trace = [Launch, NewPage,
                Goto ''https://www.notion.so/My-Page-abc123'' domcontentloaded 60000, Close],
       browser = True\<rparr>)"
  by (simp add: fetch_index_def handler_def demo_request_def searchParams_get_def
        rejected_index_def try_body_index_def run_defs)

lemma fault_run_part_000:
  "fetch_part_000 fault_api demo_request 0 =
     (Inr (failure_response (Error ''net::ERR_NAME_NOT_RESOLVED'')),
      \<lparr>world = 0,
       trace = [Launch, NewPage,
                Goto ''https://www.notion.so/My-Page-abc123'' networkidle 60000, Close],
       browser = True\<rparr>)"
  by (simp add: fetch_part_000_def handler_def demo_request_def searchParams_get_def
        rejected_part_000_def try_body_part_000_def run_defs)

lemma demo_loop_index:
  "expand_loop_index demo_api 0 (- 1) \<lparr>world = 0, trace = evs, browser = b\<rparr> =
     (Inr (), \<lparr>world = 0, trace = evs @ [Evaluate ClickAllCollapsed], browser = b\<rparr>)"
  by (subst expand_loop_index.simps)
     (simp add: maxIterations_index_def clickAllCollapsed_def evaluate_script_def)

lemma demo_run_index:
  "fetch_index demo_api demo_request 0 =
     (Inr (success_response (extract_index demo_doc)),
      \<lparr>world = 0,
       trace = [Launch, NewPage,
                Goto ''https://www.notion.so/My-Page-abc123'' domcontentloaded 60000,
                WaitForSelector 5000, Evaluate ClickAllCollapsed, WaitForTimeout 500,
                Evaluate ExtractContent, Close],
       browser = True\<rparr>)"
  by (simp add: fetch_index_def handler_def demo_request_def searchParams_get_def
        rejected_index_def try_body_index_def run_defs demo_loop_index)

lemma fault_run_part_001:
  "fetch_part_001 fault_api both_markers_request 0 =
     (Inr (failure_response (Error ''net::ERR_NAME_NOT_RESOLVED'')),
      \<lparr>world = 0,
       trace = [Launch, NewPage,
                Goto ''https://notion.site/p?src=notion.so'' domcontentloaded 60000, Close],
       browser = True\<rparr>)"
  by (simp add: fetch_part_001_def handler_def both_markers_request_def searchParams_get_def
        rejected_part_001_def try_body_part_001_def run_defs)

subsection \<open>The host check\<close>

text \<open>
  In \<^verbatim>\<open>src/index.ts\<close> and \<^verbatim>\<open>unnamed/part_000\<close> a url is accepted exactly when it
  contains one of the two markers, and the handler then enters the \<^verbatim>\<open>try\<close> block.
\<close>

lemma markers_accepted_index:
  "str_includes u ''notion.so'' \<or> str_includes u ''notion.site'' \<longleftrightarrow> \<not> rejected_index u"
  by (auto simp: rejected_index_def)

lemma markers_accepted_part_000:
  "str_includes u ''notion.so'' \<or> str_includes u ''notion.site'' \<longleftrightarrow> \<not> rejected_part_000 u"
  by (auto simp: rejected_part_000_def)

lemma marked_url_enters_pipeline:
  assumes "pathname req = ''/scrape''" and "http_method req \<noteq> ''OPTIONS''"
    and "searchParams_get req ''url'' = Some u"
    and "str_includes u ''notion.so'' \<or> str_includes u ''notion.site''"
  shows "fetch_index api req w = try_catch (try_body_index api u) (catch_block api) (start w)"
    and "fetch_part_000 api req w =
           try_catch (try_body_part_000 api u) (catch_block api) (start w)"
proof -
  from assms(4) have "u \<noteq> []" by auto
  with assms show
    "fetch_index api req w = try_catch (try_body_index api u) (catch_block api) (start w)"
    "fetch_part_000 api req w =
       try_catch (try_body_part_000 api u) (catch_block api) (start w)"
    by (simp_all add: fetch_index_def fetch_part_000_def handler_scrape
          markers_accepted_index [symmetric] markers_accepted_part_000 [symmetric])
qed

text \<open>
  Claim C1: every scrape request whose \<^verbatim>\<open>url\<close> parameter contains at least one of
  the markers \<^verbatim>\<open>notion.so\<close> and \<^verbatim>\<open>notion.site\<close> passes the host check; only a url with
  neither marker is rejected. The variant \<^verbatim>\<open>unnamed/part_001\<close> joins the two tests
  with \<^verbatim>\<open>||\<close>: it answers the url \<^verbatim>\<open>https://www.notion.so/My-Page-abc123\<close>, which
  contains \<^verbatim>\<open>notion.so\<close>, with the 400 invalid-URL response, whatever the browser.
\<close>

theorem part_001_rejects_notion_so:
  "str_includes ''https://www.notion.so/My-Page-abc123'' ''notion.so'' \<and>
   fetch_part_001 api demo_request w = (Inr invalid_url_response, start w) \<and>
   status invalid_url_response = 400"
  by (simp add: fetch_part_001_def demo_request_def handler_def searchParams_get_def
        rejected_part_001_def return_def invalid_url_response_def)

theorem part_001_rejects_notion_so_witness:
  "fetch_part_001 demo_api demo_request 0 = (Inr invalid_url_response, start 0)"
  using part_001_rejects_notion_so [of demo_api 0] by simp

subsection \<open>Closing the browser\<close>

text \<open>
  Claim C2: for every request that reaches the browser acquisition and whose launch
  resolves, whatever the later calls do (success, or a fault in opening the page,
  navigation, the wait for the content root, the expansion or the extraction),
  \<^verbatim>\<open>browser.close()\<close> is called, and it is the last call the handler makes before it
  returns. This holds for the three variants.
\<close>

theorem browser_closed_on_every_path:
  "(fst (launch api w) = None \<longrightarrow> Launch \<in> set (trace (snd (fetch_index api req w))) \<longrightarrow>
      Close \<in> set (trace (snd (fetch_index api req w))) \<and>
      last (trace (snd (fetch_index api req w))) = Close) \<and>
   (fst (launch api w) = None \<longrightarrow> Launch \<in> set (trace (snd (fetch_part_000 api req w))) \<longrightarrow>
      Close \<in> set (trace (snd (fetch_part_000 api req w))) \<and>
      last (trace (snd (fetch_part_000 api req w))) = Close) \<and>
   (fst (launch api w) = None \<longrightarrow> Launch \<in> set (trace (snd (fetch_part_001 api req w))) \<longrightarrow>
      Close \<in> set (trace (snd (fetch_part_001 api req w))) \<and>
      last (trace (snd (fetch_part_001 api req w))) = Close)"
proof -
  have in_last: "xs \<noteq> [] \<Longrightarrow> last xs = Close \<Longrightarrow> Close \<in> set xs" for xs :: "event list"
    using last_in_set by metis
  have ne: "Launch \<in> set xs \<Longrightarrow> xs \<noteq> []" for xs :: "event list" by auto
  have a: "last (trace (snd (fetch_index api req w))) = Close"
    if "fst (launch api w) = None" "Launch \<in> set (trace (snd (fetch_index api req w)))"
    using handler_closes [of "try_body_index api" api w rejected_index req] try_body_index_closes that
    unfolding fetch_index_def by (metis prod.collapse)
  have b: "last (trace (snd (fetch_part_000 api req w))) = Close"
    if "fst (launch api w) = None" "Launch \<in> set (trace (snd (fetch_part_000 api req w)))"
    using handler_closes [of "try_body_part_000 api" api w rejected_part_000 req]
      try_body_part_000_closes that
    unfolding fetch_part_000_def by (metis prod.collapse)
  have c: "last (trace (snd (fetch_part_001 api req w))) = Close"
    if "fst (launch api w) = None" "Launch \<in> set (trace (snd (fetch_part_001 api req w)))"
    using handler_closes [of "try_body_part_001 api" api w rejected_part_001 req]
      try_body_part_001_closes that
    unfolding fetch_part_001_def by (metis prod.collapse)
  show ?thesis using a b c in_last ne by blast
qed

theorem browser_closed_on_every_path_witness:
  "fst (launch fault_api 0) = None \<and>
   Launch \<in> set (trace (snd (fetch_index fault_api demo_request 0))) \<and>
   last (trace (snd (fetch_index fault_api demo_request 0))) = Close \<and>
   Launch \<in> set (trace (snd (fetch_part_000 fault_api demo_request 0))) \<and>
   last (trace (snd (fetch_part_000 fault_api demo_request 0))) = Close \<and>
   Launch \<in> set (trace (snd (fetch_part_001 fault_api both_markers_request 0))) \<and>
   last (trace (snd (fetch_part_001 fault_api both_markers_request 0))) = Close \<and>
   fst (launch demo_api 0) = None \<and>
   Launch \<in> set (trace (snd (fetch_index demo_api demo_request 0))) \<and>
   last (trace (snd (fetch_index demo_api demo_request 0))) = Close"
proof -
  have l: "fst (launch fault_api 0) = None" "fst (launch demo_api 0) = None" by simp_all
  have r1: "Launch \<in> set (trace (snd (fetch_index fault_api demo_request 0)))"
    by (simp add: fault_run_index)
  have r2: "Launch \<in> set (trace (snd (fetch_part_000 fault_api demo_request 0)))"
    by (simp add: fault_run_part_000)
  have r3: "Launch \<in> set (trace (snd (fetch_part_001 fault_api both_markers_request 0)))"
    by (simp add: fault_run_part_001)
  have r4: "Launch \<in> set (trace (snd (fetch_index demo_api demo_request 0)))"
    by (simp add: demo_run_index)
  show ?thesis
    using l r1 r2 r3 r4
      browser_closed_on_every_path [of fault_api 0 demo_request]
      browser_closed_on_every_path [of fault_api 0 both_markers_request]
      browser_closed_on_every_path [of demo_api 0 demo_request]
    by blast
qed

subsection \<open>The toggle loop\<close>

text \<open>
  Claim C6: whatever the page does, the expansion loop ends, and it queries the page
  for collapsed toggles at most \<^verbatim>\<open>maxIterations\<close> times (20, 20 and 100 in the three
  variants). The loops are total functions: their termination is proved with the
  measure \<^verbatim>\<open>maxIterations - iteration\<close>.
\<close>

theorem toggle_expansion_bounded:
  "(\<exists>evs. trace (snd (expand_loop_index api 0 (- 1) s)) = trace s @ evs \<and>
          count_list evs (Evaluate ClickAllCollapsed) \<le> maxIterations_index) \<and>
   (\<exists>evs. trace (snd (expand_loop_part_000 api 0 (- 1) s)) = trace s @ evs \<and>
          count_list evs (Evaluate ClickAllCollapsed) \<le> maxIterations_part_000) \<and>
   (\<exists>evs. trace (snd (expand_loop_part_001 api 0 s)) = trace s @ evs \<and>
          count_list evs (Evaluate GetCollapsedCount) \<le> maxIterations_part_001 \<and>
          count_list evs (Evaluate ClickFirstCollapsed) \<le> maxIterations_part_001)"
proof (intro conjI)
  show "\<exists>evs. trace (snd (expand_loop_index api 0 (- 1) s)) = trace s @ evs \<and>
          count_list evs (Evaluate ClickAllCollapsed) \<le> maxIterations_index"
    using expand_loop_index_run [of api 0 "- 1" s, OF surjective_pairing] by auto
  show "\<exists>evs. trace (snd (expand_loop_part_000 api 0 (- 1) s)) = trace s @ evs \<and>
          count_list evs (Evaluate ClickAllCollapsed) \<le> maxIterations_part_000"
    using expand_loop_part_000_run [of api 0 "- 1" s, OF surjective_pairing] by auto
  show "\<exists>evs. trace (snd (expand_loop_part_001 api 0 s)) = trace s @ evs \<and>
          count_list evs (Evaluate GetCollapsedCount) \<le> maxIterations_part_001 \<and>
          count_list evs (Evaluate ClickFirstCollapsed) \<le> maxIterations_part_001"
    using expand_loop_part_001_run [of api 0 s, OF surjective_pairing] by auto
qed

text \<open>
  On a page whose collapsed toggles never go away the loops of \<^verbatim>\<open>src/index.ts\<close> and
  \<^verbatim>\<open>unnamed/part_000\<close> stop at the cap, after exactly 20 queries.
\<close>

theorem toggle_expansion_bounded_witness:
  "(\<exists>evs. trace (snd (expand_loop_index stubborn_api 0 (- 1) (start (0::nat)))) =
            trace (start (0::nat)) @ evs \<and>
          count_list evs (Evaluate ClickAllCollapsed) \<le> maxIterations_index) \<and>
   count_list (trace (snd (expand_loop_index stubborn_api 0 (- 1) (start (0::nat)))))
     (Evaluate ClickAllCollapsed) = 20 \<and>
   count_list (trace (snd (expand_loop_part_000 stubborn_api 0 (- 1) (start (0::nat)))))
     (Evaluate ClickAllCollapsed) = 20"
proof -
  have a: "count_list (trace (snd (expand_loop_index stubborn_api 0 (- 1) (start (0::nat)))))
     (Evaluate ClickAllCollapsed) = 20"
    by code_simp
  have b: "count_list (trace (snd (expand_loop_part_000 stubborn_api 0 (- 1) (start (0::nat)))))
     (Evaluate ClickAllCollapsed) = 20"
    by code_simp
  show ?thesis
    by (intro conjI a b
          toggle_expansion_bounded [of stubborn_api "start (0::nat)", THEN conjunct1])
qed

subsection \<open>Pre-flight requests\<close>




subsection \<open>Validation errors\<close>

lemma handler_validation:
  assumes "pathname req \<noteq> ''/scrape'' \<or>
        http_method req \<noteq> ''OPTIONS'' \<and>
          (searchParams_get req ''url'' = None \<or> searchParams_get req ''url'' = Some [] \<or>
           (\<exists>u. searchParams_get req ''url'' = Some u \<and> rejected u))"
  shows "\<exists>resp. handler rejected tb api req (start w) =
                (Inr resp, \<lparr>world = w, trace = [], browser = False\<rparr>) \<and>
              (status resp = 404 \<or> status resp = 400)"
  using assms
  by (auto simp: handler_def return_def start_def not_found_response_def
        missing_url_response_def invalid_url_response_def split: option.splits)

text \<open>
  Claim C5: a request that fails validation (wrong path; or, on \<^verbatim>\<open>/scrape\<close> with a
  method other than \<^verbatim>\<open>OPTIONS\<close>, a missing or empty \<^verbatim>\<open>url\<close> parameter or a url that
  the variant's host check rejects) is answered with status 404 or 400 and the
  handler has made no call at all: the trace is empty, so the browser was never
  launched.
\<close>

theorem validation_errors_before_launch:
  "((pathname req \<noteq> ''/scrape'' \<or>
     http_method req \<noteq> ''OPTIONS'' \<and>
       (searchParams_get req ''url'' = None \<or> searchParams_get req ''url'' = Some [] \<or>
        (\<exists>u. searchParams_get req ''url'' = Some u \<and> rejected_index u))) \<longrightarrow>
    (\<exists>resp. fetch_index api req w = (Inr resp, \<lparr>world = w, trace = [], browser = False\<rparr>) \<and>
            (status resp = 404 \<or> status resp = 400))) \<and>
   ((pathname req \<noteq> ''/scrape'' \<or>
     http_method req \<noteq> ''OPTIONS'' \<and>
       (searchParams_get req ''url'' = None \<or> searchParams_get req ''url'' = Some [] \<or>
        (\<exists>u. searchParams_get req ''url'' = Some u \<and> rejected_part_000 u))) \<longrightarrow>
    (\<exists>resp. fetch_part_000 api req w = (Inr resp, \<lparr>world = w, trace = [], browser = False\<rparr>) \<and>
            (status resp = 404 \<or> status resp = 400))) \<and>
   ((pathname req \<noteq> ''/scrape'' \<or>
     http_method req \<noteq> ''OPTIONS'' \<and>
       (searchParams_get req ''url'' = None \<or> searchParams_get req ''url'' = Some [] \<or>
        (\<exists>u. searchParams_get req ''url'' = Some u \<and> rejected_part_001 u))) \<longrightarrow>
    (\<exists>resp. fetch_part_001 api req w = (Inr resp, \<lparr>world = w, trace = [], browser = False\<rparr>) \<and>
            (status resp = 404 \<or> status resp = 400)))"
  unfolding fetch_index_def fetch_part_000_def fetch_part_001_def
  by (intro conjI impI; erule handler_validation)

theorem validation_errors_before_launch_witness:
  "pathname other_path_request \<noteq> ''/scrape'' \<and>
   fetch_index demo_api other_path_request 0 =
     (Inr not_found_response, \<lparr>world = 0, trace = [], browser = False\<rparr>) \<and>
   http_method missing_url_request \<noteq> ''OPTIONS'' \<and>
   searchParams_get missing_url_request ''url'' = None \<and>
   fetch_part_000 demo_api missing_url_request 0 =
     (Inr missing_url_response, \<lparr>world = 0, trace = [], browser = False\<rparr>) \<and>
   searchParams_get foreign_url_request ''url'' = Some ''https://example.com/page'' \<and>
   rejected_part_001 ''https://example.com/page'' \<and>
   (\<exists>resp. fetch_part_001 demo_api foreign_url_request 0 =
      (Inr resp, \<lparr>world = 0, trace = [], browser = False\<rparr>) \<and>
      (status resp = 404 \<or> status resp = 400))"
proof -
  have h1: "pathname other_path_request \<noteq> ''/scrape''"
    by (simp add: other_path_request_def)
  have h2: "http_method missing_url_request \<noteq> ''OPTIONS''"
    "searchParams_get missing_url_request ''url'' = None"
    by (simp_all add: missing_url_request_def searchParams_get_def)
  have h3: "http_method foreign_url_request \<noteq> ''OPTIONS''"
    "searchParams_get foreign_url_request ''url'' = Some ''https://example.com/page''"
    "rejected_part_001 ''https://example.com/page''"
    by (simp_all add: foreign_url_request_def searchParams_get_def rejected_part_001_def)
  have e1: "fetch_index demo_api other_path_request 0 =
     (Inr not_found_response, \<lparr>world = 0, trace = [], browser = False\<rparr>)"
    using h1 by (simp add: fetch_index_def handler_not_found start_def)
  have e2: "fetch_part_000 demo_api missing_url_request 0 =
     (Inr missing_url_response, \<lparr>world = 0, trace = [], browser = False\<rparr>)"
    by (simp add: fetch_part_000_def handler_def missing_url_request_def searchParams_get_def
          return_def start_def)
  have "http_method foreign_url_request \<noteq> ''OPTIONS'' \<and>
       (searchParams_get foreign_url_request ''url'' = None \<or>
        searchParams_get foreign_url_request ''url'' = Some [] \<or>
        (\<exists>u. searchParams_get foreign_url_request ''url'' = Some u \<and> rejected_part_001 u))"
    using h3 by simp
  with validation_errors_before_launch [of foreign_url_request demo_api 0]
  have e3: "\<exists>resp. fetch_part_001 demo_api foreign_url_request 0 =
      (Inr resp, \<lparr>world = 0, trace = [], browser = False\<rparr>) \<and>
      (status resp = 404 \<or> status resp = 400)"
    by blast
  show ?thesis by (intro conjI h1 h2 h3(2,3) e1 e2 e3)
qed

subsection \<open>The failure response\<close>

text \<open>
  Claim C10 says that the \<^verbatim>\<open>details\<close> field of the 500 response is always a
  non-empty string. When the thrown value is an \<^verbatim>\<open>Error\<close> whose message is empty
  (\<^verbatim>\<open>new Error()\<close>), \<^verbatim>\<open>details\<close> is the empty string.
\<close>

theorem empty_message_counterexample:
  "fetch_index empty_message_api demo_request 0 =
     (Inr (failure_response (Error [])), \<lparr>world = 0, trace = [Launch], browser = False\<rparr>) \<and>
   body (failure_response (Error [])) =
     JSON_stringify [(''error'', ''Failed to scrape Notion page''), (''details'', [])] None"
  by (simp add: fetch_index_def handler_def demo_request_def searchParams_get_def
        rejected_index_def try_body_index_def run_defs empty_message_api_def demo_api_def
        failure_response_def errorMessage_def)

lemma handler_failure:
  assumes "reaches_scrape rejected req u" "tb u (start w) = (Inl e, s1)"
    "handler rejected tb api req (start w) = (Inr resp, s')"
  shows "resp = failure_response e"
proof -
  have "handler rejected tb api req (start w) = catch_block api e s1"
    using assms(1,2) by (simp add: reaches_scrape_def handler_def try_catch_def)
  then show ?thesis using assms(3) catch_block_run(2) by metis
qed

text \<open>
  Claim C10, amended: for every fault caught by the top-level handler, the 500
  response carries both fields: \<^verbatim>\<open>error\<close> is \<^verbatim>\<open>Failed to scrape Notion page\<close> and
  \<^verbatim>\<open>details\<close> is the message of the fault when it is an \<^verbatim>\<open>Error\<close> (possibly empty)
  and \<^verbatim>\<open>Unknown error occurred\<close> otherwise.
\<close>

theorem failure_response_fields:
  "(reaches_scrape rejected_index req u \<longrightarrow> try_body_index api u (start w) = (Inl e, s1) \<longrightarrow>
      fetch_index api req w = (Inr resp, s') \<longrightarrow>
      status resp = 500 \<and>
      body resp = JSON_stringify
        [(''error'', ''Failed to scrape Notion page''),
         (''details'', case e of Error message \<Rightarrow> message | NonError v \<Rightarrow> ''Unknown error occurred'')]
        None) \<and>
   (reaches_scrape rejected_part_000 req u \<longrightarrow> try_body_part_000 api u (start w) = (Inl e, s1) \<longrightarrow>
      fetch_part_000 api req w = (Inr resp, s') \<longrightarrow>
      status resp = 500 \<and>
      body resp = JSON_stringify
        [(''error'', ''Failed to scrape Notion page''),
         (''details'', case e of Error message \<Rightarrow> message | NonError v \<Rightarrow> ''Unknown error occurred'')]
        None) \<and>
   (reaches_scrape rejected_part_001 req u \<longrightarrow> try_body_part_001 api u (start w) = (Inl e, s1) \<longrightarrow>
      fetch_part_001 api req w = (Inr resp, s') \<longrightarrow>
      status resp = 500 \<and>
      body resp = JSON_stringify
        [(''error'', ''Failed to scrape Notion page''),
         (''details'', case e of Error message \<Rightarrow> message | NonError v \<Rightarrow> ''Unknown error occurred'')]
        None)"
proof -
  have f: "status (failure_response e) = 500 \<and>
      body (failure_response e) = JSON_stringify
        [(''error'', ''Failed to scrape Notion page''),
         (''details'', case e of Error message \<Rightarrow> message | NonError v \<Rightarrow> ''Unknown error occurred'')]
        None"
    by (simp add: failure_response_def errorMessage_def)
  show ?thesis
    unfolding fetch_index_def fetch_part_000_def fetch_part_001_def
    using handler_failure f by metis
qed

lemma fault_try_body_index:
  "try_body_index fault_api ''https://www.notion.so/My-Page-abc123'' (start 0) =
     (Inl (Error ''net::ERR_NAME_NOT_RESOLVED''),
      \<lparr>world = 0,
       trace = [Launch, NewPage,
                Goto ''https://www.notion.so/My-Page-abc123'' domcontentloaded 60000],
       browser = True\<rparr>)"
  by (simp add: try_body_index_def run_defs)

lemma string_throw_try_body_part_000:
  "try_body_part_000 string_throw_api ''https://www.notion.so/My-Page-abc123'' (start 0) =
     (Inl (NonError ''closed''), \<lparr>world = 0, trace = [Launch, NewPage], browser = True\<rparr>)"
  by (simp add: try_body_part_000_def run_defs string_throw_api_def demo_api_def)

lemma string_throw_run_part_000:
  "fetch_part_000 string_throw_api demo_request 0 =
     (Inr (failure_response (NonError ''closed'')),
      \<lparr>world = 0, trace = [Launch, NewPage, Close], browser = True\<rparr>)"
  by (simp add: fetch_part_000_def handler_def demo_request_def searchParams_get_def
        rejected_part_000_def try_body_part_000_def run_defs string_throw_api_def demo_api_def)

theorem failure_response_fields_witness:
  "reaches_scrape rejected_index demo_request ''https://www.notion.so/My-Page-abc123'' \<and>
   fst (try_body_index fault_api ''https://www.notion.so/My-Page-abc123'' (start 0)) =
     Inl (Error ''net::ERR_NAME_NOT_RESOLVED'') \<and>
   fst (fetch_index fault_api demo_request 0) =
     Inr (failure_response (Error ''net::ERR_NAME_NOT_RESOLVED'')) \<and>
   body (failure_response (Error ''net::ERR_NAME_NOT_RESOLVED'')) =
     JSON_stringify
       [(''error'', ''Failed to scrape Notion page''),
        (''details'', ''net::ERR_NAME_NOT_RESOLVED'')] None \<and>
   reaches_scrape rejected_part_000 demo_request ''https://www.notion.so/My-Page-abc123'' \<and>
   fst (try_body_part_000 string_throw_api ''https://www.notion.so/My-Page-abc123'' (start 0)) =
     Inl (NonError ''closed'') \<and>
   fst (fetch_part_000 string_throw_api demo_request 0) =
     Inr (failure_response (NonError ''closed'')) \<and>
   status (failure_response (NonError ''closed'')) = 500 \<and>
   body (failure_response (NonError ''closed'')) =
     JSON_stringify
       [(''error'', ''Failed to scrape Notion page''),
        (''details'', ''Unknown error occurred'')] None"
proof -
  note r = demo_request_reaches
  note t1 = fault_try_body_index
  note t2 = string_throw_try_body_part_000
  note f1 = fault_run_index
  note f2 = string_throw_run_part_000
  from failure_response_fields [THEN conjunct1, rule_format, OF r(1) t1 f1]
  have b1: "body (failure_response (Error ''net::ERR_NAME_NOT_RESOLVED'')) =
     JSON_stringify
       [(''error'', ''Failed to scrape Notion page''),
        (''details'', ''net::ERR_NAME_NOT_RESOLVED'')] None"
    by simp
  from failure_response_fields [THEN conjunct2, THEN conjunct1, rule_format, OF r(2) t2 f2]
  have b2: "status (failure_response (NonError ''closed'')) = 500"
    "body (failure_response (NonError ''closed'')) =
     JSON_stringify
       [(''error'', ''Failed to scrape Notion page''),
        (''details'', ''Unknown error occurred'')] None"
    by simp_all
  show ?thesis
    using r b1 b2 by (simp add: t1 t2 f1 f2)
qed

section \<open>Properties of the extraction scripts\<close>

subsection \<open>Queries\<close>




lemma element_querySelector_None_iff:
  "element_querySelector el sel = None \<longleftrightarrow> (\<forall>(q, m) \<in> set (descendants el). \<not> matches sel m)"
  unfolding element_querySelector_def find_None_iff by force









subsection \<open>Sibling blocks\<close>





subsection \<open>A page without content root\<close>











text \<open>
  All three files wait for the content root before they extract. While that wait
  cannot resolve, the \<^verbatim>\<open>try\<close> block is left before the extraction, and a request
  that is answered at all is answered with status 500.
\<close>

lemma await_rejects:
  assumes "\<And>x s. \<exists>e s'. k x s = (Inl e, s')"
  shows "\<exists>e s'. await m k s = (Inl e, s')"
proof (cases "m s")
  case (Pair r s1)
  then show ?thesis using assms [of _ s1]
    by (cases r) (auto simp: await_def)
qed

lemma call_rejects:
  assumes "\<forall>w. fst (f w) \<noteq> None"
  shows "\<exists>e s'. await (call ev f) k s = (Inl e, s')"
proof -
  obtain r w' where f: "f (world s) = (r, w')" by fastforce
  with assms obtain e where "r = Some e" by (metis fst_conv not_None_eq)
  with f show ?thesis by (simp add: await_def call_def)
qed

lemma try_body_wait_rejects:
  assumes "\<forall>t w. fst (waitForSelector api sel_content_root t w) \<noteq> None"
  shows "\<exists>e s'. try_body_index api u s = (Inl e, s')"
    and "\<exists>e s'. try_body_part_000 api u s = (Inl e, s')"
    and "\<exists>e s'. try_body_part_001 api u s = (Inl e, s')"
  unfolding try_body_index_def try_body_part_000_def try_body_part_001_def
  by (intro await_rejects call_rejects allI assms [rule_format])+

lemma handler_wait_rejects:
  assumes tb: "\<And>s. \<exists>e s'. tb u s = (Inl e, s')"
    and reach: "reaches_scrape rejected req u"
    and run: "handler rejected tb api req s = (Inr resp, s')"
  shows "\<exists>e. resp = failure_response e"
proof -
  from tb [of s] obtain e s1 where t: "tb u s = (Inl e, s1)" by blast
  from reach have "handler rejected tb api req s = try_catch (tb u) (catch_block api) s"
    by (simp add: reaches_scrape_def handler_def)
  with t run have "catch_block api e s1 = (Inr resp, s')"
    by (simp add: try_catch_def)
  from catch_block_run(2) [OF this] show ?thesis by blast
qed

lemma missing_root_never_succeeds:
  assumes "\<forall>t w. fst (waitForSelector api sel_content_root t w) \<noteq> None"
  shows "reaches_scrape rejected_index req u \<Longrightarrow> fetch_index api req w = (Inr resp, s')
           \<Longrightarrow> status resp = 500"
    and "reaches_scrape rejected_part_000 req u \<Longrightarrow> fetch_part_000 api req w = (Inr resp, s')
           \<Longrightarrow> status resp = 500"
    and "reaches_scrape rejected_part_001 req u \<Longrightarrow> fetch_part_001 api req w = (Inr resp, s')
           \<Longrightarrow> status resp = 500"
  using handler_wait_rejects [OF try_body_wait_rejects(1) [OF assms]]
        handler_wait_rejects [OF try_body_wait_rejects(2) [OF assms]]
        handler_wait_rejects [OF try_body_wait_rejects(3) [OF assms]]
  unfolding fetch_index_def fetch_part_000_def fetch_part_001_def
  by (fastforce simp: failure_response_def)+






lemma vanishing_api_fields [simp]:
  "launch vanishing_api w = (None, w)"
  "newPage vanishing_api w = (None, w)"
  "goto vanishing_api url wu t w = (None, w)"
  "waitForSelector vanishing_api sel t w = (None, w)"
  "waitForTimeout vanishing_api t w = (None, w)"
  "evaluate vanishing_api sc w = (None, if sc = ExtractContent then 1 else w)"
  "close vanishing_api w = (None, w)"
  "document vanishing_api w = (if w = 0 then demo_doc else no_root_doc)"
  "toggleNodes vanishing_api w = [0..<w]"
  by (simp_all add: vanishing_api_def demo_api_def)




subsection \<open>Media blocks\<close>

text \<open>
  Claim C8 says that every block containing an image, an inline vector graphic, a
  video, an audio or a file/embed indicator is skipped entirely. In
  \<^verbatim>\<open>src/index.ts\<close> a block whose only media is an \<^verbatim>\<open>audio\<close> element is kept (the
  element is stripped from the clone, the text stays); \<^verbatim>\<open>unnamed/part_000\<close> only
  strips media elements and \<^verbatim>\<open>unnamed/part_001\<close> filters nothing, so both emit the
  text of a block that contains an \<^verbatim>\<open>img\<close>.
\<close>

theorem media_not_skipped_counterexample:
  "([0, 1, 0], Element ''div'' [(''data-block-id'', ''d'')]
                 [Element ''audio'' [(''src'', ''a.mp3'')] [], Text ''hello''])
     \<in> set (querySelectorAll media_doc [0, 1] sel_block) \<and>
   ([0, 1, 0], ''hello'') \<in> set (contentEntries_index media_doc [0, 1]) \<and>
   content (extract_index media_doc) = ''hello'' @ blank_line @ ''plain'' \<and>
   ([0, 1, 1], ''pic'') \<in> set (contentEntries_part_000 media_doc [0, 1]) \<and>
   content (extract_part_000 media_doc) =
     ''hello'' @ blank_line @ ''pic'' @ blank_line @ ''outer'' @ blank_line @ ''inner'' @
     blank_line @ ''plain'' \<and>
   ([0, 1, 1], ''pic'') \<in> set (contentEntries_part_001 media_doc [0, 1]) \<and>
   content (extract_part_001 media_doc) =
     ''hello'' @ blank_line @ ''pic'' @ blank_line @ ''outerinner'' @ blank_line @ ''inner'' @
     blank_line @ ''plain''"
  by code_simp

lemma is_media_block_iff:
  "is_media_block m \<longleftrightarrow>
     (\<exists>(q, d) \<in> set (descendants m).
        tagName d = Some ''img'' \<or> tagName d = Some ''svg'' \<or>
        (\<exists>c. getAttribute d ''class'' = Some c \<and>
             (str_includes c ''image'' \<or> str_includes c ''embed'' \<or>
              str_includes c ''video'' \<or> str_includes c ''file'')))"
proof -
  have tag: "matches [[Tag t]] d \<longleftrightarrow> tagName d = Some t" for t d
    by (cases d) (simp_all add: matches_def matches_compound_def)
  have cls: "matches [[AttrContains ''class'' v]] d \<longleftrightarrow>
               (\<exists>c. getAttribute d ''class'' = Some c \<and> v \<noteq> [] \<and> str_includes c v)" for v d
    by (cases d) (auto simp: matches_def matches_compound_def split: option.splits)
  have q: "element_querySelector m sel \<noteq> None \<longleftrightarrow> (\<exists>(q, d) \<in> set (descendants m). matches sel d)"
    for sel
    using element_querySelector_None_iff [of m sel] by auto
  show ?thesis
    unfolding is_media_block_def q tag cls by (simp add: split_def) blast
qed

lemma is_media_block_ancestor:
  assumes "node_at pm q = Some m" "is_media_block m"
  shows "q = [] \<or> is_media_block pm"
proof -
  from assms(2) obtain q' d where d: "(q', d) \<in> set (descendants m)"
    "tagName d = Some ''img'' \<or> tagName d = Some ''svg'' \<or>
        (\<exists>c. getAttribute d ''class'' = Some c \<and>
             (str_includes c ''image'' \<or> str_includes c ''embed'' \<or>
              str_includes c ''video'' \<or> str_includes c ''file''))"
    unfolding is_media_block_iff by blast
  from descendants_trans [OF assms(1) d(1)] have "(q @ q', d) \<in> set (descendants pm)" .
  with d(2) have "is_media_block pm" unfolding is_media_block_iff by blast
  then show ?thesis ..
qed

lemma in_contentEntries_index:
  assumes "(p, t) \<in> set (contentEntries_index doc contentRoot)"
  shows "\<exists>pm. (p, pm) \<in> set (topLevelBlocks doc (querySelectorAll doc contentRoot sel_block)) \<and>
              \<not> is_media_block pm \<and> t = trim (textContent (remove_matching sel_media pm)) \<and>
              t \<noteq> []"
  using assms
  by (auto simp: contentEntries_index_def block_entry_index_def Let_def split: if_splits)

lemma in_topLevelBlocks:
  assumes "(p, pm) \<in> set (topLevelBlocks doc allBlocks)"
  shows "(p, pm) \<in> set allBlocks"
    and "p \<noteq> [] \<Longrightarrow> closest doc sel_block (butlast p) = Some parent \<Longrightarrow>
           parent \<notin> set (map fst allBlocks)"
  using assms by (auto simp: topLevelBlocks_def parentElement_def)

text \<open>
  Claim C8, amended: in \<^verbatim>\<open>src/index.ts\<close>, for every block under the content root
  that has a descendant \<^verbatim>\<open>img\<close> or \<^verbatim>\<open>svg\<close> element, or a descendant whose \<^verbatim>\<open>class\<close>
  attribute contains \<^verbatim>\<open>image\<close>, \<^verbatim>\<open>embed\<close>, \<^verbatim>\<open>video\<close> or \<^verbatim>\<open>file\<close>, no entry of
  \<^verbatim>\<open>contentParts\<close> comes from that block, from a block that contains it, or from a
  block nested in it.
\<close>

theorem media_blocks_skipped:
  assumes block: "(b, m) \<in> set (querySelectorAll doc contentRoot sel_block)"
    and media: "\<exists>(q, d) \<in> set (descendants m).
        tagName d = Some ''img'' \<or> tagName d = Some ''svg'' \<or>
        (\<exists>c. getAttribute d ''class'' = Some c \<and>
             (str_includes c ''image'' \<or> str_includes c ''embed'' \<or>
              str_includes c ''video'' \<or> str_includes c ''file''))"
  shows "\<forall>(p, t) \<in> set (contentEntries_index doc contentRoot). \<not> prefix p b \<and> \<not> prefix b p"
proof (clarify)
  fix p t
  assume entry: "(p, t) \<in> set (contentEntries_index doc contentRoot)"
  let ?all = "querySelectorAll doc contentRoot sel_block"
  from media have mb: "is_media_block m" unfolding is_media_block_iff .
  from in_contentEntries_index [OF entry] obtain pm where
    top: "(p, pm) \<in> set (topLevelBlocks doc ?all)" and plain: "\<not> is_media_block pm"
    by blast
  from in_topLevelBlocks(1) [OF top] have pin: "(p, pm) \<in> set ?all" .
  from pin obtain qp where qp: "qp \<noteq> []" "p = contentRoot @ qp" "node_at doc p = Some pm"
    unfolding in_querySelectorAll_iff by blast
  from block obtain qb where qb: "qb \<noteq> []" "b = contentRoot @ qb" "node_at doc b = Some m"
    "matches sel_block m"
    unfolding in_querySelectorAll_iff by blast
  have up: "\<not> prefix p b"
  proof
    assume "prefix p b"
    then obtain q where q: "b = p @ q" by (auto simp: prefix_def)
    then have "node_at pm q = Some m" using qp(3) qb(3) by (simp add: node_at_append)
    from is_media_block_ancestor [OF this mb] plain have "q = []" by blast
    then have "pm = m" using q qp(3) qb(3) by simp
    with plain mb show False by simp
  qed
  have down: "\<not> prefix b p"
  proof
    assume bp: "prefix b p"
    have "b \<noteq> p" using up by auto
    have pne: "p \<noteq> []" using qp by simp
    have pre: "prefix b (butlast p)" using bp \<open>b \<noteq> p\<close> by (rule prefix_butlast_strict)
    have "closest doc sel_block (butlast p) \<noteq> None"
      using closest_None [OF _ pre qb(3)] qb(4) by blast
    then obtain par where par: "closest doc sel_block (butlast p) = Some par" by blast
    from closest_Some [OF par] obtain parm where
      parm: "node_at doc par = Some parm" "matches sel_block parm" and "prefix b par"
      using pre qb(3,4) by blast
    then obtain z where "par = contentRoot @ (qb @ z)" using qb(2) by (auto simp: prefix_def)
    then have "(par, parm) \<in> set ?all"
      unfolding in_querySelectorAll_iff using parm qb(1) by blast
    then have "par \<in> set (map fst ?all)" by force
    with in_topLevelBlocks(2) [OF top pne par] show False by simp
  qed
  from up down show "\<not> prefix p b \<and> \<not> prefix b p" ..
qed

lemma media_doc_entries_index:
  "contentEntries_index media_doc [0, 1] = [([0, 1, 0], ''hello''), ([0, 1, 3], ''plain'')]"
  by code_simp

theorem media_blocks_skipped_witness:
  "([0, 1, 2, 1], Element ''div'' [(''data-block-id'', ''h'')]
       [Element ''span'' [(''class'', ''notion-image-inline'')] [], Text ''inner''])
     \<in> set (querySelectorAll media_doc [0, 1] sel_block) \<and>
   ([0, 1, 1], Element ''div'' [(''data-block-id'', ''e'')]
                 [Element ''img'' [(''src'', ''p.png'')] [], Text ''pic''])
     \<in> set (querySelectorAll media_doc [0, 1] sel_block) \<and>
   contentEntries_index media_doc [0, 1] = [([0, 1, 0], ''hello''), ([0, 1, 3], ''plain'')] \<and>
   \<not> prefix [0, 1, 0] [0, 1, 2, 1 :: nat] \<and> \<not> prefix [0, 1, 2, 1] [0, 1, 0 :: nat] \<and>
   \<not> prefix [0, 1, 3] [0, 1, 2, 1 :: nat] \<and> \<not> prefix [0, 1, 2, 1] [0, 1, 3 :: nat] \<and>
   \<not> prefix [0, 1, 0] [0, 1, 1 :: nat] \<and> \<not> prefix [0, 1, 1] [0, 1, 0 :: nat] \<and>
   \<not> prefix [0, 1, 3] [0, 1, 1 :: nat] \<and> \<not> prefix [0, 1, 1] [0, 1, 3 :: nat]"
proof -
  let ?h = "Element ''div'' [(''data-block-id'', ''h'')]
       [Element ''span'' [(''class'', ''notion-image-inline'')] [], Text ''inner'']"
  let ?e = "Element ''div'' [(''data-block-id'', ''e'')]
                 [Element ''img'' [(''src'', ''p.png'')] [], Text ''pic'']"
  have h: "([0, 1, 2, 1], ?h) \<in> set (querySelectorAll media_doc [0, 1] sel_block)"
    by code_simp
  have hm: "\<exists>(q, d) \<in> set (descendants ?h).
        tagName d = Some ''img'' \<or> tagName d = Some ''svg'' \<or>
        (\<exists>c. getAttribute d ''class'' = Some c \<and>
             (str_includes c ''image'' \<or> str_includes c ''embed'' \<or>
              str_includes c ''video'' \<or> str_includes c ''file''))"
    by simp
  have e: "([0, 1, 1], ?e) \<in> set (querySelectorAll media_doc [0, 1] sel_block)"
    by code_simp
  have em: "\<exists>(q, d) \<in> set (descendants ?e).
        tagName d = Some ''img'' \<or> tagName d = Some ''svg'' \<or>
        (\<exists>c. getAttribute d ''class'' = Some c \<and>
             (str_includes c ''image'' \<or> str_includes c ''embed'' \<or>
              str_includes c ''video'' \<or> str_includes c ''file''))"
    by simp
  note entries = media_doc_entries_index
  from media_blocks_skipped [OF h hm] have sh:
    "\<not> prefix [0, 1, 0] [0, 1, 2, 1 :: nat]" "\<not> prefix [0, 1, 2, 1] [0, 1, 0 :: nat]"
    "\<not> prefix [0, 1, 3] [0, 1, 2, 1 :: nat]" "\<not> prefix [0, 1, 2, 1] [0, 1, 3 :: nat]"
    unfolding entries by simp_all
  from media_blocks_skipped [OF e em] have se:
    "\<not> prefix [0, 1, 0] [0, 1, 1 :: nat]" "\<not> prefix [0, 1, 1] [0, 1, 0 :: nat]"
    "\<not> prefix [0, 1, 3] [0, 1, 1 :: nat]" "\<not> prefix [0, 1, 1] [0, 1, 3 :: nat]"
    unfolding entries by simp_all
  show ?thesis
    by (intro conjI h e entries sh se)
qed

subsection \<open>Repeated texts\<close>

text \<open>
  Claim C9 says that two distinct blocks with identical trimmed texts give exactly
  one entry under the de-duplicating script and two under the other. Two blocks
  whose trimmed text is empty give no entry at all, in either script: the page
  below has two blocks reading \<^verbatim>\<open>N/A\<close> and two blank blocks, and the blank ones
  leave no trace in \<^verbatim>\<open>contentParts\<close> nor in \<^verbatim>\<open>content\<close>.
\<close>

theorem blank_duplicates_counterexample:
  "([0, 0, 2], Element ''div'' [(''data-block-id'', ''z'')] [Text '' ''])
     \<in> set (querySelectorAll duplicate_doc [0, 0] sel_block) \<and>
   ([0, 0, 3], Element ''div'' [(''data-block-id'', ''w'')] [])
     \<in> set (querySelectorAll duplicate_doc [0, 0] sel_block) \<and>
   getDirectText (Element ''div'' [(''data-block-id'', ''z'')] [Text '' '']) = [] \<and>
   getDirectText (Element ''div'' [(''data-block-id'', ''w'')] []) = [] \<and>
   count_list (map snd (contentEntries_part_000 duplicate_doc [0, 0])) [] = 0 \<and>
   trim (textContent (Element ''div'' [(''data-block-id'', ''z'')] [Text '' ''])) = [] \<and>
   trim (textContent (Element ''div'' [(''data-block-id'', ''w'')] [])) = [] \<and>
   count_list (map snd (contentEntries_part_001 duplicate_doc [0, 0])) [] = 0 \<and>
   content (extract_part_000 duplicate_doc) = ''N/A'' \<and>
   content (extract_part_001 duplicate_doc) = ''N/A'' @ blank_line @ ''N/A''"
  by code_simp

lemma count_list_distinct_member: "distinct xs \<Longrightarrow> x \<in> set xs \<Longrightarrow> count_list xs x = 1"
  by (induction xs) (auto simp: count_list_0_iff)

lemma count_list_append_sum: "count_list (xs @ ys) x = count_list xs x + count_list ys x"
  by (induction xs) auto

lemma foldl_part_000_inv:
  assumes "seen = set (map snd parts)" "distinct (map snd parts)"
  shows "fst (foldl block_step_part_000 (seen, parts) xs) =
           set (map snd (snd (foldl block_step_part_000 (seen, parts) xs))) \<and>
         distinct (map snd (snd (foldl block_step_part_000 (seen, parts) xs))) \<and>
         set (map snd (snd (foldl block_step_part_000 (seen, parts) xs))) =
           set (map snd parts) \<union> {t. t \<noteq> [] \<and> (\<exists>(b, m) \<in> set xs. getDirectText m = t)}"
  using assms
proof (induction xs arbitrary: seen parts)
  case Nil
  then show ?case by simp
next
  case (Cons x xs)
  obtain b m where x: "x = (b, m)" by (cases x)
  let ?t = "getDirectText m"
  show ?case
  proof (cases "?t \<noteq> [] \<and> ?t \<notin> seen")
    case True
    then have step: "block_step_part_000 (seen, parts) x = (insert ?t seen, parts @ [(b, ?t)])"
      using x by (simp add: block_step_part_000_def Let_def)
    have 1: "insert ?t seen = set (map snd (parts @ [(b, ?t)]))" using Cons.prems(1) by simp
    have 2: "distinct (map snd (parts @ [(b, ?t)]))" using Cons.prems True by simp
    from Cons.IH [OF 1 2] show ?thesis
      unfolding foldl_Cons step using x True by auto
  next
    case False
    then have step: "block_step_part_000 (seen, parts) x = (seen, parts)"
      using x by (auto simp: block_step_part_000_def Let_def)
    from Cons.IH [OF Cons.prems] show ?thesis
      unfolding foldl_Cons step using x False Cons.prems(1) by auto
  qed
qed

lemma entry_paths_part_001:
  "(p, t) \<in> set (concat (map block_entry_part_001 xs)) \<Longrightarrow> p \<in> fst ` set xs"
  by (force simp: block_entry_part_001_def Let_def split: if_splits)

lemma count_entries_part_001:
  assumes "distinct (map fst xs)" "(b, m) \<in> set xs" "trim (textContent m) = t" "t \<noteq> []"
  shows "count_list (concat (map block_entry_part_001 xs)) (b, t) = 1"
  using assms
proof (induction xs)
  case Nil
  then show ?case by simp
next
  case (Cons x xs)
  obtain b' m' where x: "x = (b', m')" by (cases x)
  show ?case
  proof (cases "b' = b")
    case True
    then have "b \<notin> fst ` set xs" using Cons.prems(1) x by auto
    then have here: "(b', m') = (b, m)" using Cons.prems(2) x True by force
    have "(b, t) \<notin> set (concat (map block_entry_part_001 xs))"
      using \<open>b \<notin> fst ` set xs\<close> entry_paths_part_001 by blast
    then have "count_list (concat (map block_entry_part_001 xs)) (b, t) = 0"
      by (simp add: count_list_0_iff)
    moreover have "block_entry_part_001 x = [(b, t)]"
      using here x Cons.prems(3,4) by (simp add: block_entry_part_001_def)
    ultimately show ?thesis by (simp add: count_list_append_sum)
  next
    case False
    then have "(b, m) \<in> set xs" using Cons.prems(2) x by auto
    then have "count_list (concat (map block_entry_part_001 xs)) (b, t) = 1"
      using Cons.IH Cons.prems by simp
    moreover have "count_list (block_entry_part_001 x) (b, t) = 0"
      using False x by (simp add: block_entry_part_001_def Let_def)
    ultimately show ?thesis by (simp add: count_list_append_sum)
  qed
qed

lemma count_texts_two:
  assumes "b1 \<noteq> b2"
  shows "count_list es (b1, t) + count_list es (b2, t) \<le> count_list (map snd es) t"
  using assms by (induction es) auto

text \<open>
  Claim C9, amended: for two distinct blocks under the content root whose
  extracted trimmed texts are the same non-empty string \<open>t\<close>: under the
  de-duplicating script (\<^verbatim>\<open>unnamed/part_000\<close>, text = direct text) \<open>t\<close> occurs
  exactly once in \<^verbatim>\<open>contentParts\<close>; under the script without de-duplication
  (\<^verbatim>\<open>unnamed/part_001\<close>, text = full text) each of the two blocks contributes
  exactly one entry \<open>t\<close>, so that \<open>t\<close> occurs at least twice.
\<close>

theorem duplicate_texts:
  assumes b1: "(b1, m1) \<in> set (querySelectorAll doc contentRoot sel_block)"
    and b2: "(b2, m2) \<in> set (querySelectorAll doc contentRoot sel_block)"
    and ne: "b1 \<noteq> b2"
  shows "(getDirectText m1 = t \<and> getDirectText m2 = t \<and> t \<noteq> [] \<longrightarrow>
            count_list (map snd (contentEntries_part_000 doc contentRoot)) t = 1) \<and>
         (trim (textContent m1) = t \<and> trim (textContent m2) = t \<and> t \<noteq> [] \<longrightarrow>
            count_list (contentEntries_part_001 doc contentRoot) (b1, t) = 1 \<and>
            count_list (contentEntries_part_001 doc contentRoot) (b2, t) = 1 \<and>
            2 \<le> count_list (map snd (contentEntries_part_001 doc contentRoot)) t)"
proof (intro conjI impI)
  let ?all = "querySelectorAll doc contentRoot sel_block"
  assume t: "getDirectText m1 = t \<and> getDirectText m2 = t \<and> t \<noteq> []"
  have pre: "{} = set (map snd ([] :: (path \<times> string) list))"
    "distinct (map snd ([] :: (path \<times> string) list))"
    by simp_all
  note inv = foldl_part_000_inv [OF pre, of ?all]
  have inv1: "distinct (map snd (snd (foldl block_step_part_000 ({}, []) ?all)))"
    using inv by blast
  have "t \<in> {t. t \<noteq> [] \<and> (\<exists>(b, m) \<in> set ?all. getDirectText m = t)}"
    using t b1 by auto
  then have "t \<in> set (map snd (snd (foldl block_step_part_000 ({}, []) ?all)))"
    using inv by blast
  with inv1 show "count_list (map snd (contentEntries_part_000 doc contentRoot)) t = 1"
    unfolding contentEntries_part_000_def Let_def by (rule count_list_distinct_member)
next
  let ?all = "querySelectorAll doc contentRoot sel_block"
  assume t: "trim (textContent m1) = t \<and> trim (textContent m2) = t \<and> t \<noteq> []"
  have d: "distinct (map fst ?all)" by (rule distinct_querySelectorAll)
  show c1: "count_list (contentEntries_part_001 doc contentRoot) (b1, t) = 1"
    unfolding contentEntries_part_001_def Let_def
    using count_entries_part_001 [OF d b1] t by blast
  show c2: "count_list (contentEntries_part_001 doc contentRoot) (b2, t) = 1"
    unfolding contentEntries_part_001_def Let_def
    using count_entries_part_001 [OF d b2] t by blast
  show "2 \<le> count_list (map snd (contentEntries_part_001 doc contentRoot)) t"
    using count_texts_two [OF ne, of "contentEntries_part_001 doc contentRoot" t] c1 c2 by simp
qed

theorem duplicate_texts_witness:
  "count_list (map snd (contentEntries_part_000 duplicate_doc [0, 0])) ''N/A'' = 1 \<and>
   count_list (contentEntries_part_001 duplicate_doc [0, 0]) ([0, 0, 0], ''N/A'') = 1 \<and>
   count_list (contentEntries_part_001 duplicate_doc [0, 0]) ([0, 0, 1], ''N/A'') = 1 \<and>
   2 \<le> count_list (map snd (contentEntries_part_001 duplicate_doc [0, 0])) ''N/A'' \<and>
   content (extract_part_000 duplicate_doc) = ''N/A'' \<and>
   content (extract_part_001 duplicate_doc) = ''N/A'' @ blank_line @ ''N/A''"
proof -
  let ?x = "Element ''div'' [(''data-block-id'', ''x'')] [Text ''N/A'']"
  let ?y = "Element ''div'' [(''data-block-id'', ''y'')] [Text '' N/A'']"
  have x: "([0, 0, 0], ?x) \<in> set (querySelectorAll duplicate_doc [0, 0] sel_block)"
    by code_simp
  have y: "([0, 0, 1], ?y) \<in> set (querySelectorAll duplicate_doc [0, 0] sel_block)"
    by code_simp
  have ne: "[0, 0, 0] \<noteq> [0, 0, (1::nat)]" by simp
  have t0: "getDirectText ?x = ''N/A'' \<and> getDirectText ?y = ''N/A'' \<and> ''N/A'' \<noteq> []"
    by code_simp
  have t1: "trim (textContent ?x) = ''N/A'' \<and> trim (textContent ?y) = ''N/A'' \<and> ''N/A'' \<noteq> []"
    by code_simp
  have c: "content (extract_part_000 duplicate_doc) = ''N/A''"
    "content (extract_part_001 duplicate_doc) = ''N/A'' @ blank_line @ ''N/A''"
    by code_simp+
  from duplicate_texts [OF x y ne, of "''N/A''"] t0 t1 c show ?thesis by blast
qed

end
